theory Spec2Isabelle
  imports Main
begin

section \<open>Strings and byte slices\<close>

text \<open>
  A Go \<open>string\<close> is a sequence of bytes and is modelled by \<open>string\<close>. A Go \<open>[]byte\<close>
  is either \<open>nil\<close> or a (possibly empty) sequence of bytes; the program tests
  \<open>errorResponse != nil\<close>, so the difference is kept: \<open>None\<close> is the nil slice.
\<close>

type_synonym byteslice = "string option"

definition string_of :: "byteslice \<Rightarrow> string" where
  \<comment> \<open>the conversion \<open>string(b)\<close>\<close>
  "string_of b = (case b of None \<Rightarrow> [] | Some s \<Rightarrow> s)"

definition NL :: char where
  "NL = CHR 0x0A"

fun HasPrefix :: "string \<Rightarrow> string \<Rightarrow> bool" where
  "HasPrefix s [] = True"
| "HasPrefix [] (p # ps) = False"
| "HasPrefix (c # cs) (p # ps) = (c = p \<and> HasPrefix cs ps)"

text \<open>
  \<open>strings.TrimSpace\<close> removes the leading and the trailing white space of a string read
  as UTF-8, white space being the code points for which \<open>unicode.IsSpace\<close> holds: the six
  of ASCII (tab, newline, vertical tab, form feed, carriage return, space) and U+0085,
  U+00A0, U+1680, U+2000 to U+200A, U+2028, U+2029, U+202F, U+205F and U+3000. Each of
  them has one valid encoding, listed in \<open>whiteSpace\<close>; a string begins with a white
  space exactly when it begins with one of these encodings, and ends with one exactly
  when it ends with one of them (the decoder accepts no other encoding of a code point,
  and reads a byte that starts no valid encoding as U+FFFD, which is not white space).
  As in \<open>strings.TrimFunc\<close>, the leading white space is removed first, then the trailing
  one, which is found from the end of the string.
\<close>

definition whiteSpace :: "string list" where
  "whiteSpace =
     [[CHR 0x09], [CHR 0x0A], [CHR 0x0B], [CHR 0x0C], [CHR 0x0D], [CHR 0x20],
      [CHR 0xC2, CHR 0x85], [CHR 0xC2, CHR 0xA0],
      [CHR 0xE1, CHR 0x9A, CHR 0x80],
      [CHR 0xE2, CHR 0x80, CHR 0x80], [CHR 0xE2, CHR 0x80, CHR 0x81], [CHR 0xE2, CHR 0x80, CHR 0x82],
      [CHR 0xE2, CHR 0x80, CHR 0x83], [CHR 0xE2, CHR 0x80, CHR 0x84], [CHR 0xE2, CHR 0x80, CHR 0x85],
      [CHR 0xE2, CHR 0x80, CHR 0x86], [CHR 0xE2, CHR 0x80, CHR 0x87], [CHR 0xE2, CHR 0x80, CHR 0x88],
      [CHR 0xE2, CHR 0x80, CHR 0x89], [CHR 0xE2, CHR 0x80, CHR 0x8A],
      [CHR 0xE2, CHR 0x80, CHR 0xA8], [CHR 0xE2, CHR 0x80, CHR 0xA9], [CHR 0xE2, CHR 0x80, CHR 0xAF],
      [CHR 0xE2, CHR 0x81, CHR 0x9F],
      [CHR 0xE3, CHR 0x80, CHR 0x80]]"

fun trimLeading :: "string list \<Rightarrow> string \<Rightarrow> string" where
  \<comment> \<open>drops, as long as there is one, the leading byte sequence that is in the list\<close>
  "trimLeading encs [] = []"
| "trimLeading encs (c # cs) =
     (case find (HasPrefix (c # cs)) encs of
        None \<Rightarrow> c # cs
      | Some enc \<Rightarrow> trimLeading encs (drop (length enc - 1) cs))"

definition TrimLeftSpace :: "string \<Rightarrow> string" where
  "TrimLeftSpace s = trimLeading whiteSpace s"

definition TrimRightSpace :: "string \<Rightarrow> string" where
  "TrimRightSpace s = rev (trimLeading (map rev whiteSpace) (rev s))"

definition TrimSpace :: "string \<Rightarrow> string" where
  "TrimSpace s = TrimRightSpace (TrimLeftSpace s)"

definition TrimPrefix :: "string \<Rightarrow> string \<Rightarrow> string" where
  "TrimPrefix s p = (if HasPrefix s p then drop (length p) s else s)"

fun Contains :: "string \<Rightarrow> string \<Rightarrow> bool" where
  "Contains [] sub = HasPrefix [] sub"
| "Contains (c # cs) sub = (HasPrefix (c # cs) sub \<or> Contains cs sub)"

fun SplitNL :: "string \<Rightarrow> string list" where
  \<comment> \<open>\<open>strings.Split(s, "\n")\<close>: the empty string gives one empty field\<close>
  "SplitNL [] = [[]]"
| "SplitNL (c # cs) =
     (if c = NL then [] # SplitNL cs
      else (case SplitNL cs of [] \<Rightarrow> [[c]] | l # ls \<Rightarrow> (c # l) # ls))"

section \<open>Observable effects\<close>

text \<open>
  The calls the program makes on the outside world, recorded in the order it makes them:
  the operations on \<open>proxyLock\<close>; \<open>time.Sleep\<close> (in milliseconds); the writes of a
  request handler on its \<open>ResponseWriter\<close> and its call of the upstream reverse proxy;
  printing on standard output and standard error (a \<open>Printf\<close> with its format and its
  arguments as given); running a command for its combined output; \<open>watcher.Add\<close>; SIGTERM
  sent to the child; \<open>waiter.Wait()\<close>; the start of a child with its path, arguments and
  environment; \<open>net.ListenTCP\<close>; \<open>os.Remove\<close>; \<open>os.Exit\<close>.
\<close>

datatype event =
    Lock | Unlock | RLock | RUnlock
  | Sleep nat
  | WriteHeader nat
  | Write string
  | Proxy
  | Print string
  | Printf string "string list"
  | Fprint_stderr string
  | Fprintln_stderr string
  | Fprintf_stderr string "string list"
  | CombinedOutput string "string list"
  | WatcherAdd string
  | SignalTERM
  | WaiterWait
  | Start string "string list" "string list"
  | ListenTCP string
  | Remove string
  | OsExit nat

section \<open>Internal state\<close>

text \<open>
  The package-level variables that the handler and the rebuild share, and the effects so
  far. \<open>service\<close> is the command of the child started last (\<open>None\<close> for \<open>nil\<close>), and
  \<open>watchedDir\<close> the map of that name.
\<close>

record child =
  Path :: string
  Args :: "string list"
  Env :: "string list"

record world =
  errorResponse :: byteslice
  builtOnce :: bool
  service :: "child option"
  waiter :: nat
  watchedDir :: "string \<rightharpoonup> bool"
  trace :: "event list"

definition emit :: "event list \<Rightarrow> world \<Rightarrow> world" where
  "emit es w = w\<lparr>trace := trace w @ es\<rparr>"

definition initial :: world where
  "initial = \<lparr>errorResponse = None, builtOnce = False, service = None, waiter = 0,
              watchedDir = Map.empty, trace = []\<rparr>"

section \<open>The proxy handler\<close>

text \<open>
  \<open>blockingProxy.ServeHTTP\<close> reads the shared variables only while it holds the shared
  lease of \<open>proxyLock\<close>. The handler is run against the list of the states it finds at
  its successive acquisitions of the lease (the first \<open>RLock\<close>, then one per turn of the
  loop). It yields the effects it has had so far and whether it has returned; when the
  list ends before the handler leaves the loop it has not returned.
\<close>

definition respond :: "world \<Rightarrow> event list" where
  "respond s = (case errorResponse s of
                  Some body \<Rightarrow> [WriteHeader 502, Write body]
                | None \<Rightarrow> [Proxy])"

fun ServeHTTP_loop :: "world \<Rightarrow> world list \<Rightarrow> event list \<times> bool" where
  "ServeHTTP_loop s rest =
     (if \<not> builtOnce s then
        (case rest of
           [] \<Rightarrow> ([RUnlock, Sleep 100], False)
         | s' # rest' \<Rightarrow>
             (case ServeHTTP_loop s' rest' of
                (es, returned) \<Rightarrow> (RUnlock # Sleep 100 # RLock # es, returned)))
      else (respond s @ [RUnlock], True))"

definition ServeHTTP :: "world list \<Rightarrow> event list \<times> bool" where
  "ServeHTTP obs =
     (case obs of
        [] \<Rightarrow> ([], False)
      | s # rest \<Rightarrow> (case ServeHTTP_loop s rest of (es, returned) \<Rightarrow> (RLock # es, returned)))"

definition spins :: "nat \<Rightarrow> event list" where
  "spins k = concat (replicate k [RUnlock, Sleep 100, RLock])"

section \<open>Configuration\<close>

record url =
  Scheme :: string
  Host :: string

definition isDigit :: "char \<Rightarrow> bool" where
  "isDigit c = (48 \<le> (of_char c :: nat) \<and> (of_char c :: nat) \<le> 57)"

definition HasSuffix :: "string \<Rightarrow> string \<Rightarrow> bool" where
  "HasSuffix s p = HasPrefix (rev s) (rev p)"

definition splitHostPort :: "string \<Rightarrow> string \<times> string" where
  \<comment> \<open>\<open>net/url\<close>: the text after the last colon is the port when it is made of digits;
      the brackets of an IPv6 host are removed\<close>
  "splitHostPort hostPort =
     (let portr = takeWhile (\<lambda>c. c \<noteq> CHR '':'') (rev hostPort);
          valid = (CHR '':'' \<in> set hostPort \<and> list_all isDigit portr);
          host = (if valid then take (length hostPort - Suc (length portr)) hostPort else hostPort);
          port = (if valid then rev portr else [])
      in (if HasPrefix host ''['' \<and> HasSuffix host '']'' then butlast (tl host) else host, port))"

definition Hostname :: "url \<Rightarrow> string" where
  "Hostname u = fst (splitHostPort (Host u))"

definition Port :: "url \<Rightarrow> string" where
  "Port u = snd (splitHostPort (Host u))"

definition JoinHostPort :: "string \<Rightarrow> string \<Rightarrow> string" where
  "JoinHostPort host port =
     (if CHR '':'' \<in> set host then ''['' @ host @ '']:'' @ port else host @ '':'' @ port)"

definition digit :: "nat \<Rightarrow> char" where
  "digit d =
     (if d = 0 then CHR ''0'' else if d = 1 then CHR ''1'' else if d = 2 then CHR ''2''
      else if d = 3 then CHR ''3'' else if d = 4 then CHR ''4'' else if d = 5 then CHR ''5''
      else if d = 6 then CHR ''6'' else if d = 7 then CHR ''7'' else if d = 8 then CHR ''8''
      else CHR ''9'')"

fun digitsOf :: "nat \<Rightarrow> string" where
  "digitsOf n = (if n < 10 then [digit n] else digitsOf (n div 10) @ [digit (n mod 10)])"

definition Itoa :: "int \<Rightarrow> string" where
  "Itoa i = (if i < 0 then CHR ''-'' # digitsOf (nat (- i)) else digitsOf (nat i))"

datatype replacement = RelativePath string | Dependency string string

record gomodule =
  Name :: string
  Replace :: "string \<rightharpoonup> replacement"

text \<open>
  The parsed arguments and the module layout are set once, before the first rebuild.
  \<open>healthCheckURL\<close> holds the text \<open>healthCheckURL.String()\<close> and \<open>timeoutFlag\<close> the text
  \<open>(*timeoutFlag).String()\<close>. \<open>Replace\<close> is the map \<open>goModule.Replace\<close>.
\<close>

record config =
  packageName :: string
  listenURL :: url
  serviceURL :: url
  healthCheckURL :: string
  timeoutFlag :: string
  buildArgs :: "string list"
  cmdArgs :: "string list"
  tmpFile :: string
  goModule :: "gomodule option"
  goModuleDir :: string

section \<open>The environment of one rebuild\<close>

datatype cmd_error = ExitError string | OtherError string

type_synonym cmd_result = "byteslice \<times> cmd_error option"

datatype boot_outcome = ChildExited | TimedOut | Listening

text \<open>
  The three calls of \<open>watchListedPackages\<close> in a rebuild: on the package name, on the
  output of \<open>go list\<close> and on the output of \<open>go build\<close>.
\<close>

datatype pass = MainPackage | Listed | Built

text \<open>
  What the outside world answers during one rebuild: the combined output and error of
  \<open>go list\<close> and of \<open>go build\<close>; whether the child signalled by \<open>stopRunningService\<close> has
  exited and been reaped by the time \<open>go build\<close> returns; the error of \<open>service.Start\<close>;
  which case of the final \<open>select\<close> is taken; \<open>os.Environ()\<close>; the answer of
  \<open>build.Default.Import\<close> in find-only mode (an error text, or \<open>Goroot\<close> and \<open>Dir\<close>); the
  error of \<open>watcher.Add\<close>; and the order in which each execution of the \<open>range\<close>
  statement over \<open>goModule.Replace\<close> visits the keys of that map. Go leaves that order
  unspecified, and it may differ from one execution to the next: \<open>rangeOrder k i\<close> is the
  order at line \<open>i\<close> (counted from 0) of call \<open>k\<close> of \<open>watchListedPackages\<close>. A \<open>range\<close>
  statement visits every key once, so an order that Go can take is a list of the keys
  without repetition (\<open>visits\<close>).
\<close>

record env =
  goList :: cmd_result
  goBuild :: cmd_result
  oldChildReaped :: bool
  startError :: "string option"
  boot :: boot_outcome
  environ :: "string list"
  Import :: "string \<Rightarrow> string + (bool \<times> string)"
  Add :: "string \<Rightarrow> string option"
  rangeOrder :: "pass \<Rightarrow> nat \<Rightarrow> string list"

definition visits :: "(string \<rightharpoonup> replacement) \<Rightarrow> string list \<Rightarrow> bool" where
  "visits m order = (distinct order \<and> set order = dom m)"

type_synonym result = "(nat \<times> world) + world"

definition world_of :: "result \<Rightarrow> world" where
  \<comment> \<open>the state in which an operation returns or ends the process\<close>
  "world_of r = (case r of Inl (code, w) \<Rightarrow> w | Inr w \<Rightarrow> w)"

definition os_Exit :: "nat \<Rightarrow> world \<Rightarrow> (nat \<times> world) + 'a" where
  \<comment> \<open>the process ends here; no deferred call runs\<close>
  "os_Exit code w = Inl (code, emit [OsExit code] w)"

section \<open>Watching the listed packages\<close>

definition noise :: "string \<Rightarrow> bool" where
  "noise p = (HasPrefix p ''# '' \<or> HasPrefix p ''ld:'' \<or> TrimSpace p = [] \<or> HasPrefix p ''go:'')"

fun rangeReplace :: "string \<Rightarrow> (string \<rightharpoonup> replacement) \<Rightarrow> string list \<Rightarrow> string \<Rightarrow> string" where
  \<comment> \<open>the loop \<open>for path, replace := range goModule.Replace\<close>, over the keys in the order
      they are visited; a later matching local replacement overwrites an earlier one\<close>
  "rangeReplace p m [] dir = dir"
| "rangeReplace p m (path # others) dir =
     rangeReplace p m others
       (if HasPrefix p path then
          (case m path of Some (RelativePath r) \<Rightarrow> r @ TrimPrefix p path | _ \<Rightarrow> dir)
        else dir)"

definition moduleDir :: "gomodule \<Rightarrow> string \<Rightarrow> string list \<Rightarrow> string \<Rightarrow> string" where
  "moduleDir m mdir order p =
     rangeReplace p (Replace m) order (if HasPrefix p (Name m) then mdir @ TrimPrefix p (Name m) else [])"

definition watched :: "world \<Rightarrow> string \<Rightarrow> bool" where
  \<comment> \<open>\<open>watchedDir[dir]\<close>: false for a missing key\<close>
  "watched w dir = (case watchedDir w dir of None \<Rightarrow> False | Some b \<Rightarrow> b)"

definition addWatch :: "env \<Rightarrow> string \<Rightarrow> world \<Rightarrow> result" where
  "addWatch e dir w =
     (if dir \<noteq> [] \<and> \<not> watched w dir then
        (case Add e dir of
           Some err \<Rightarrow>
             os_Exit 1
               (emit ([WatcherAdd dir, Fprintf_stderr (''lrt: '' @ err @ [NL]) []] @
                      (if Contains err ''too many open files'' then
                         [Fprintf_stderr (''     hint: you may need to increase the number of open files you are allowed, try:'' @ [NL]) [],
                          Fprintf_stderr (''           sudo launchctl limit maxfiles 1000000 1000000'' @ [NL]) []]
                       else [])) w)
         | None \<Rightarrow> Inr ((emit [WatcherAdd dir] w)\<lparr>watchedDir := (watchedDir w)(dir \<mapsto> True)\<rparr>))
      else Inr w)"

definition resolve :: "config \<Rightarrow> env \<Rightarrow> pass \<Rightarrow> nat \<Rightarrow> string \<Rightarrow> string + string" where
  \<comment> \<open>the directory of the dependency identifier at line \<open>i\<close> of call \<open>k\<close> (empty when it is
      not to be watched), or the error of \<open>build.Default.Import\<close>\<close>
  "resolve cfg e k i p =
     (case goModule cfg of
        Some m \<Rightarrow> Inr (moduleDir m (goModuleDir cfg) (rangeOrder e k i) p)
      | None \<Rightarrow>
          (case Import e p of
             Inl err \<Rightarrow> Inl err
           | Inr (goroot, dir) \<Rightarrow> Inr (if \<not> goroot then dir else [])))"

definition watchDependency :: "config \<Rightarrow> env \<Rightarrow> pass \<Rightarrow> nat \<Rightarrow> string \<Rightarrow> world \<Rightarrow> result" where
  "watchDependency cfg e k i p w =
     (case resolve cfg e k i p of
        Inl err \<Rightarrow> os_Exit 1 (emit [Fprintf_stderr (''lrt: '' @ err) [[NL]]] w)
      | Inr dir \<Rightarrow> addWatch e dir w)"

definition watchPackage :: "config \<Rightarrow> env \<Rightarrow> pass \<Rightarrow> nat \<Rightarrow> string \<Rightarrow> world \<Rightarrow> result" where
  \<comment> \<open>one turn of the loop over the lines, for line \<open>i\<close>\<close>
  "watchPackage cfg e k i p w =
     (if p = [] then Inr w
      else if noise p then Inr (emit [Fprintln_stderr p] w)
      else watchDependency cfg e k i p w)"

fun watchPackages :: "config \<Rightarrow> env \<Rightarrow> pass \<Rightarrow> nat \<Rightarrow> string list \<Rightarrow> world \<Rightarrow> result" where
  \<comment> \<open>the loop over the lines from line \<open>i\<close> on\<close>
  "watchPackages cfg e k i [] w = Inr w"
| "watchPackages cfg e k i (p # ps) w =
     (case watchPackage cfg e k i p w of
        Inl x \<Rightarrow> Inl x
      | Inr w' \<Rightarrow> watchPackages cfg e k (Suc i) ps w')"

definition watchListedPackages :: "config \<Rightarrow> env \<Rightarrow> pass \<Rightarrow> byteslice \<Rightarrow> world \<Rightarrow> result" where
  "watchListedPackages cfg e k output w =
     watchPackages cfg e k 0 (SplitNL (TrimSpace (string_of output))) w"

section \<open>Stopping the child\<close>

text \<open>
  \<open>stopRunningService\<close> signals the child and hands the rest (waiting up to ten seconds,
  then the kill) to a goroutine; it does not wait for the child to exit. The counter
  \<open>waiter\<close> counts the children started whose exit has not been noticed yet: it is
  lowered by the goroutine that waits for the child, and \<open>waiter.Wait()\<close> returns once it
  is zero.
\<close>

definition stopRunningService :: "world \<Rightarrow> world" where
  "stopRunningService w = (case service w of None \<Rightarrow> w | Some c \<Rightarrow> emit [SignalTERM] w)"

definition waiter_Wait :: "world \<Rightarrow> world" where
  "waiter_Wait w = (emit [WaiterWait] w)\<lparr>waiter := 0\<rparr>"

definition reap :: "env \<Rightarrow> world \<Rightarrow> world" where
  \<comment> \<open>the goroutine's \<open>waiter.Done()\<close>, when the old child has exited meanwhile\<close>
  "reap e w = (if oldChildReaped e then w\<lparr>waiter := 0\<rparr> else w)"

section \<open>The rebuild\<close>

definition listCommand :: "config \<Rightarrow> string list" where
  "listCommand cfg =
     [''list'', ''-f'', ''{{ join .Deps  '' @ [CHR 0x22, CHR 0x5C, CHR ''n'', CHR 0x22] @ ''}}'',
      packageName cfg]"

definition buildCommand :: "config \<Rightarrow> string list" where
  "buildCommand cfg = ''build'' # (buildArgs cfg @ [''-o'', tmpFile cfg, ''-i'', ''-v'', packageName cfg])"

definition exitedMessage :: "config \<Rightarrow> string" where
  "exitedMessage cfg =
     ''lrt: error: service unexpectedly exited before responding to '' @ healthCheckURL cfg @ [NL] @
     ''     hint: check the terminal output to see if any errors were logged.'' @ [NL]"

definition timeoutMessage :: "config \<Rightarrow> string" where
  "timeoutMessage cfg =
     ''lrt: error: service is still not responding on '' @ healthCheckURL cfg @ '' after '' @
       timeoutFlag cfg @ [NL] @
     ''     hint: ensure your service listens on $PORT. For example: http.ListenAndServe('' @
       [CHR 0x22] @ ''localhost:'' @ [CHR 0x22] @ '' + os.Getenv('' @ [CHR 0x22] @ ''PORT'' @
       [CHR 0x22] @ ''), nil)'' @ [NL] @
     ''           also, check the terminal output to see if any errors were logged.'' @ [NL]"

definition rebuild_list :: "config \<Rightarrow> env \<Rightarrow> world \<Rightarrow> result" where
  \<comment> \<open>all the dependencies, from \<open>go list\<close>, watched explicitly\<close>
  "rebuild_list cfg e w =
     (let w1 = emit [CombinedOutput ''go'' (listCommand cfg)] w in
      case goList e of
        (output, Some (ExitError msg)) \<Rightarrow>
          os_Exit 1 (emit [Fprint_stderr (''lrt: '' @ string_of output)] w1)
      | (output, Some (OtherError msg)) \<Rightarrow>
          os_Exit 1 (emit [Fprint_stderr (''lrt: '' @ msg)] w1)
      | (output, None) \<Rightarrow>
          (case watchListedPackages cfg e MainPackage (Some (packageName cfg)) w1 of
             Inl x \<Rightarrow> Inl x
           | Inr w2 \<Rightarrow> watchListedPackages cfg e Listed output w2))"

definition rebuild_enter :: "config \<Rightarrow> env \<Rightarrow> world \<Rightarrow> result" where
  \<comment> \<open>the exclusive lock, and the full dependency list on the first run or after a failure\<close>
  "rebuild_enter cfg e w0 =
     (let w1 = emit [Lock] w0;
          w2 = (if builtOnce w1 then emit [Printf (''lrt: rebuilding...'' @ [NL]) []] w1 else w1)
      in if \<not> builtOnce w2 \<or> errorResponse w2 \<noteq> None then rebuild_list cfg e w2 else Inr w2)"

definition rebuild_reset :: "world \<Rightarrow> world" where
  "rebuild_reset w = stopRunningService (w\<lparr>builtOnce := True, errorResponse := None\<rparr>)"

definition startService :: "config \<Rightarrow> env \<Rightarrow> child" where
  "startService cfg e =
     \<lparr>Path = tmpFile cfg, Args = cmdArgs cfg, Env = environ e @ [''PORT='' @ Port (serviceURL cfg)]\<rparr>"

definition rebuild_boot :: "config \<Rightarrow> env \<Rightarrow> byteslice \<Rightarrow> world \<Rightarrow> result" where
  \<comment> \<open>after a successful build: new watches, the old child reaped, the new child started
      and probed\<close>
  "rebuild_boot cfg e output w =
     (case watchListedPackages cfg e Built output w of
        Inl x \<Rightarrow> Inl x
      | Inr w1 \<Rightarrow>
          (let w2 = waiter_Wait w1;
               c = startService cfg e;
               w3 = (emit [Start (Path c) (Args c) (Env c)] w2)\<lparr>service := Some c\<rparr>
           in case startError e of
                Some err \<Rightarrow> os_Exit 1 (emit [Fprintln_stderr err] w3)
              | None \<Rightarrow>
                  (let w4 = w3\<lparr>waiter := waiter w3 + 1\<rparr> in
                   Inr (case boot e of
                          ChildExited \<Rightarrow>
                            (emit [Fprintf_stderr (exitedMessage cfg) []] w4)
                              \<lparr>errorResponse := Some (exitedMessage cfg), waiter := waiter w4 - 1\<rparr>
                        | TimedOut \<Rightarrow>
                            (emit [Fprintf_stderr (timeoutMessage cfg) []] w4)
                              \<lparr>errorResponse := Some (timeoutMessage cfg)\<rparr>
                        | Listening \<Rightarrow> w4))))"

definition rebuild_build :: "config \<Rightarrow> env \<Rightarrow> world \<Rightarrow> result" where
  "rebuild_build cfg e w =
     (let w1 = reap e (emit [CombinedOutput ''go'' (buildCommand cfg)] w) in
      case goBuild e of
        (output, Some (ExitError msg)) \<Rightarrow> Inr ((emit [Print (string_of output)] w1)\<lparr>errorResponse := output\<rparr>)
      | (output, Some (OtherError msg)) \<Rightarrow> os_Exit 1 (emit [Fprint_stderr (''lrt: '' @ msg)] w1)
      | (output, None) \<Rightarrow> rebuild_boot cfg e output w1)"

definition rebuild :: "config \<Rightarrow> env \<Rightarrow> world \<Rightarrow> result" where
  \<comment> \<open>the deferred \<open>proxyLock.Unlock()\<close> runs when \<open>rebuild\<close> returns, not when the process exits\<close>
  "rebuild cfg e w =
     (case rebuild_enter cfg e w of
        Inl x \<Rightarrow> Inl x
      | Inr w1 \<Rightarrow>
          (case rebuild_build cfg e (rebuild_reset w1) of
             Inl x \<Rightarrow> Inl x
           | Inr w2 \<Rightarrow> Inr (emit [Unlock] w2)))"

section \<open>Shutdown\<close>

text \<open>
  \<open>main\<close> defers \<open>os.Remove(tmpFile.Name())\<close>. A deferred call runs when its function
  returns; \<open>os.Exit\<close> ends the process at once and runs none. The goroutine started by
  \<open>rebuildOnChange\<close> handles SIGTERM and SIGINT.
\<close>

datatype ending = Returns | Exits nat

definition main_ends :: "config \<Rightarrow> ending \<Rightarrow> world \<Rightarrow> world" where
  "main_ends cfg how w =
     (case how of Returns \<Rightarrow> emit [Remove (tmpFile cfg)] w | Exits code \<Rightarrow> emit [OsExit code] w)"

definition shutdown :: "config \<Rightarrow> world \<Rightarrow> nat \<times> world" where
  "shutdown cfg w = (0, main_ends cfg (Exits 0) (waiter_Wait (stopRunningService (emit [Lock] w))))"

section \<open>The service address\<close>

text \<open>
  The network as the start of the program meets it: \<open>SplitHostPort\<close> of package \<open>net\<close>,
  whether \<open>net.ResolveTCPAddr\<close> accepts an address, and the port the kernel binds for
  \<open>net.ListenTCP\<close> on port 0 (\<open>None\<close> when binding fails).
\<close>

record net =
  SplitHostPort :: "string \<Rightarrow> (string \<times> string) option"
  ResolveTCPAddr :: "string \<Rightarrow> bool"
  ListenTCPPort :: "int option"

definition fallbackURL :: "url \<Rightarrow> url" where
  "fallbackURL l = \<lparr>Scheme = Scheme l, Host = JoinHostPort (Hostname l) (''1'' @ Port l)\<rparr>"

definition generateServiceURL :: "net \<Rightarrow> url \<Rightarrow> world \<Rightarrow> url \<times> world" where
  "generateServiceURL n l w =
     (let addr = JoinHostPort (Hostname l) ''0'' in
      if \<not> ResolveTCPAddr n addr then (fallbackURL l, w)
      else (case ListenTCPPort n of
              None \<Rightarrow> (fallbackURL l, emit [ListenTCP addr] w)
            | Some port \<Rightarrow>
                (\<lparr>Scheme = Scheme l, Host = JoinHostPort (Hostname l) (Itoa port)\<rparr>,
                 emit [ListenTCP addr] w)))"

definition argToURL :: "net \<Rightarrow> string \<Rightarrow> string \<Rightarrow> world \<Rightarrow> (nat \<times> world) + url" where
  "argToURL n name str w =
     (case SplitHostPort n str of
        None \<Rightarrow>
          os_Exit 2
            (emit [Printf (''lrt: %s is invalid. Expected something like '' @ [CHR 0x22] @
                           ''localhost:3000'' @ [CHR 0x22] @ '' or '' @ [CHR 0x22] @ '':3000'' @
                           [CHR 0x22] @ ''. See lrt --help for details'' @ [NL]) [name]] w)
      | Some (host, port) \<Rightarrow> Inr \<lparr>Scheme = ''http'', Host = host @ '':'' @ port\<rparr>)"

definition mustParseArgs_urls ::
  "net \<Rightarrow> string \<Rightarrow> string \<Rightarrow> world \<Rightarrow> (nat \<times> world) + ((url \<times> url) \<times> world)" where
  \<comment> \<open>the part of \<open>mustParseArgs\<close> that sets \<open>listenURL\<close> and \<open>serviceURL\<close>\<close>
  "mustParseArgs_urls n listenFlag serviceFlag w =
     (case argToURL n ''-listen'' listenFlag w of
        Inl x \<Rightarrow> Inl x
      | Inr l \<Rightarrow>
          (if serviceFlag = [] then
             (case generateServiceURL n l w of (s, w') \<Rightarrow> Inr ((l, s), w'))
           else
             (case argToURL n ''-service'' serviceFlag w of
                Inl x \<Rightarrow> Inl x
              | Inr s \<Rightarrow> Inr ((l, s), w))))"

section \<open>Notions used in the properties\<close>

text \<open>
  The effects that listing and watching can have (\<open>quiet\<close>), and the relation between the
  states before and after such a step (\<open>frame\<close>): the shared variables other than the
  watched set are as before, and only quiet effects were added.
\<close>

definition quiet :: "event \<Rightarrow> bool" where
  "quiet ev =
     (case ev of WatcherAdd d \<Rightarrow> True | Fprintln_stderr s \<Rightarrow> True | Fprintf_stderr f a \<Rightarrow> True
      | Fprint_stderr s \<Rightarrow> True | Printf f a \<Rightarrow> True | CombinedOutput c a \<Rightarrow> True
      | Lock \<Rightarrow> True | OsExit c \<Rightarrow> True | _ \<Rightarrow> False)"

definition frame :: "world \<Rightarrow> world \<Rightarrow> bool" where
  "frame w w' =
     (errorResponse w' = errorResponse w \<and> builtOnce w' = builtOnce w \<and> service w' = service w
      \<and> waiter w' = waiter w \<and> (\<exists>es. trace w' = trace w @ es \<and> list_all quiet es))"

text \<open>The lines a pass over an output echoes to standard error.\<close>

definition is_echo :: "event \<Rightarrow> bool" where
  "is_echo ev = (case ev of Fprintln_stderr s \<Rightarrow> True | _ \<Rightarrow> False)"

definition echoes :: "string list \<Rightarrow> event list" where
  "echoes ps = map Fprintln_stderr (filter (\<lambda>p. p \<noteq> [] \<and> noise p) ps)"

text \<open>
  What a rebuild may do: it never binds a port and never removes a file, and a child it
  starts gets the port of \<open>serviceURL\<close>.
\<close>

definition rebuild_event :: "config \<Rightarrow> env \<Rightarrow> event \<Rightarrow> bool" where
  "rebuild_event cfg e ev =
     (case ev of
        ListenTCP a \<Rightarrow> False
      | Remove p \<Rightarrow> False
      | Start p a env \<Rightarrow> env = environ e @ [''PORT='' @ Port (serviceURL cfg)]
      | _ \<Rightarrow> True)"

definition extends :: "(event \<Rightarrow> bool) \<Rightarrow> world \<Rightarrow> world \<Rightarrow> bool" where
  "extends P w w' = (\<exists>es. trace w' = trace w @ es \<and> list_all P es)"

text \<open>
  The directories \<open>watcher.Add\<close> was called for, in order. \<open>watch_inv\<close>: no directory was
  added twice, and every directory added is marked in \<open>watchedDir\<close>. \<open>grown\<close> relates a state
  to a later one in which only directories not watched before were added, each once, and
  nothing watched was lost; \<open>settled\<close> says moreover that the added ones are marked.
  \<open>tracks\<close> asks \<open>settled\<close> of an operation that returns and \<open>grown\<close> of one that ends the
  process.
\<close>

primrec adds :: "event list \<Rightarrow> string list" where
  "adds [] = []"
| "adds (ev # es) = (case ev of WatcherAdd d \<Rightarrow> d # adds es | _ \<Rightarrow> adds es)"

definition watch_inv :: "world \<Rightarrow> bool" where
  "watch_inv w = (distinct (adds (trace w)) \<and> list_all (watched w) (adds (trace w)))"

definition grown :: "world \<Rightarrow> world \<Rightarrow> bool" where
  "grown w w' =
     ((\<exists>es. trace w' = trace w @ es \<and> distinct (adds es) \<and> (\<forall>d\<in>set (adds es). \<not> watched w d))
      \<and> (\<forall>d. watched w d \<longrightarrow> watched w' d))"

definition settled :: "world \<Rightarrow> world \<Rightarrow> bool" where
  "settled w w' =
     ((\<exists>es. trace w' = trace w @ es \<and> distinct (adds es)
            \<and> (\<forall>d\<in>set (adds es). \<not> watched w d \<and> watched w' d))
      \<and> (\<forall>d. watched w d \<longrightarrow> watched w' d))"

definition same_watch :: "world \<Rightarrow> world \<Rightarrow> bool" where
  "same_watch w w' = (watchedDir w' = watchedDir w \<and> (\<exists>es. trace w' = trace w @ es \<and> adds es = []))"

definition tracks :: "world \<Rightarrow> result \<Rightarrow> bool" where
  "tracks w r = (case r of Inl (c, w') \<Rightarrow> grown w w' | Inr w' \<Rightarrow> settled w w')"

text \<open>A run: rebuilds one after another, until one of them ends the process.\<close>

fun rebuilds :: "config \<Rightarrow> env list \<Rightarrow> world \<Rightarrow> result" where
  "rebuilds cfg [] w = Inr w"
| "rebuilds cfg (e # es) w =
     (case rebuild cfg e w of Inl x \<Rightarrow> Inl x | Inr w' \<Rightarrow> rebuilds cfg es w')"

definition resolved :: "config \<Rightarrow> env \<Rightarrow> pass \<Rightarrow> nat \<Rightarrow> world \<Rightarrow> string \<Rightarrow> bool" where
  \<comment> \<open>a dependency line whose directory needs no new watch\<close>
  "resolved cfg e k i w p =
     (case resolve cfg e k i p of Inl err \<Rightarrow> False | Inr dir \<Rightarrow> dir = [] \<or> watched w dir)"

text \<open>
  Two passes over the same lines agree when every line that is a dependency identifier
  is resolved to the same directory (or to the same error) in both.
\<close>

definition same_resolution :: "config \<Rightarrow> env \<Rightarrow> pass \<Rightarrow> env \<Rightarrow> pass \<Rightarrow> string list \<Rightarrow> bool" where
  "same_resolution cfg e k e' k' ps =
     list_all (\<lambda>j. ps ! j \<noteq> [] \<and> \<not> noise (ps ! j) \<longrightarrow>
                    resolve cfg e' k' j (ps ! j) = resolve cfg e k j (ps ! j))
       [0..<length ps]"

section \<open>Sample inputs\<close>

text \<open>
  A module \<open>example.com/app\<close> rooted at \<open>/src/app\<close>, served on port 40001 behind
  \<open>localhost:3000\<close>. In \<open>example_env\<close> everything succeeds: \<open>go list\<close> names one package
  of the module and one of the standard library, the build prints nothing and the child
  answers the health check. The variants differ in the outcome of the build or of the
  boot. The worlds are the states the rebuilds below pass through.
\<close>

definition example_config :: config where
  "example_config =
     \<lparr>packageName = ''.'', listenURL = \<lparr>Scheme = ''http'', Host = ''localhost:3000''\<rparr>,
      serviceURL = \<lparr>Scheme = ''http'', Host = ''localhost:40001''\<rparr>,
      healthCheckURL = ''http://localhost:40001/'', timeoutFlag = ''10s'',
      buildArgs = [], cmdArgs = [], tmpFile = ''/tmp/lrt-service1'',
      goModule = Some \<lparr>Name = ''example.com/app'', Replace = Map.empty\<rparr>, goModuleDir = ''/src/app''\<rparr>"

definition example_listing :: string where
  "example_listing = ''example.com/app/lib'' @ [NL] @ ''fmt'' @ [NL]"

definition example_env :: env where
  "example_env =
     \<lparr>goList = (Some example_listing, None),
      goBuild = (Some [], None), oldChildReaped = False, startError = None, boot = Listening,
      environ = [''HOME=/root''], Import = (\<lambda>p. Inr (False, ''/gopath/src/'' @ p)),
      Add = (\<lambda>d. None), rangeOrder = (\<lambda>k i. [])\<rparr>"

definition example_env_broken :: env where
  "example_env_broken = example_env\<lparr>goBuild := (Some ''x.go:1: bad'', Some (ExitError ''exit status 2''))\<rparr>"

definition example_env_crash :: env where
  "example_env_crash = example_env\<lparr>boot := ChildExited\<rparr>"

definition example_entered :: world where
  "example_entered =
     \<lparr>errorResponse = None, builtOnce = False, service = None, waiter = 0,
      watchedDir = [''/src/app/lib'' \<mapsto> True],
      trace = [Lock, CombinedOutput ''go'' (listCommand example_config), WatcherAdd ''/src/app/lib'']\<rparr>"

definition example_running :: world where
  "example_running =
     \<lparr>errorResponse = None, builtOnce = True,
      service = Some \<lparr>Path = ''/tmp/lrt-service1'', Args = [], Env = [''HOME=/root'', ''PORT=40001'']\<rparr>,
      waiter = 1, watchedDir = [''/src/app/lib'' \<mapsto> True],
      trace = [Lock, CombinedOutput ''go'' (listCommand example_config), WatcherAdd ''/src/app/lib'',
               CombinedOutput ''go'' (buildCommand example_config), WaiterWait,
               Start ''/tmp/lrt-service1'' [] [''HOME=/root'', ''PORT=40001''], Unlock]\<rparr>"


definition example_noisy :: string where
  "example_noisy = ''# example.com/app'' @ [NL, NL] @ ''  '' @ [NL] @ ''ld: warning''"

definition example_net :: net where
  "example_net =
     \<lparr>SplitHostPort = (\<lambda>s. if s = ''localhost:3000'' then Some (''localhost'', ''3000'') else None),
      ResolveTCPAddr = (\<lambda>a. True), ListenTCPPort = Some 40001\<rparr>"

definition example_started :: world where
  "example_started = emit [ListenTCP ''localhost:0''] initial"

definition example_first :: "event list" where
  "example_first =
     [Lock, CombinedOutput ''go'' (listCommand example_config), WatcherAdd ''/src/app/lib'',
      CombinedOutput ''go'' (buildCommand example_config), WaiterWait,
      Start ''/tmp/lrt-service1'' [] [''HOME=/root'', ''PORT=40001''], Unlock]"

definition example_second :: "event list" where
  "example_second =
     [Lock, Printf (''lrt: rebuilding...'' @ [NL]) [], SignalTERM,
      CombinedOutput ''go'' (buildCommand example_config), WaiterWait,
      Start ''/tmp/lrt-service1'' [] [''HOME=/root'', ''PORT=40001''], Unlock]"

definition example_served :: "event list \<Rightarrow> world" where
  "example_served t =
     \<lparr>errorResponse = None, builtOnce = True,
      service = Some \<lparr>Path = ''/tmp/lrt-service1'', Args = [], Env = [''HOME=/root'', ''PORT=40001'']\<rparr>,
      waiter = 1, watchedDir = [''/src/app/lib'' \<mapsto> True], trace = t\<rparr>"

definition example_listed :: world where
  "example_listed = (emit [WatcherAdd ''/src/app/lib''] initial)\<lparr>watchedDir := [''/src/app/lib'' \<mapsto> True]\<rparr>"

definition example_env_silent :: env where
  "example_env_silent = example_env\<lparr>goBuild := (Some [], Some (ExitError ''exit status 1''))\<rparr>"

text \<open>
  The state after a second rebuild whose build failed, and a \<open>go list\<close> that exits
  non-zero.
\<close>

definition example_failed :: world where
  "example_failed =
     example_running
       \<lparr>errorResponse := Some ''x.go:1: bad'',
        trace := trace example_running @
          [Lock, Printf (''lrt: rebuilding...'' @ [NL]) [], SignalTERM,
           CombinedOutput ''go'' (buildCommand example_config), Print ''x.go:1: bad'', Unlock]\<rparr>"

definition example_env_unlisted :: env where
  "example_env_unlisted =
     example_env\<lparr>goList := (Some ''go: cannot find main module'', Some (ExitError ''exit status 1''))\<rparr>"

text \<open>
  A module with two local replacements, one for \<open>example.com/a\<close> and one for the module
  \<open>example.com/a/b\<close> nested in it, and the two orders in which the \<open>range\<close> statement can
  visit them.
\<close>

definition example_overlap :: config where
  "example_overlap =
     example_config
       \<lparr>goModule := Some \<lparr>Name = ''example.com/app'',
                            Replace = [''example.com/a'' \<mapsto> RelativePath ''../a'',
                                       ''example.com/a/b'' \<mapsto> RelativePath ''../vendored/b'']\<rparr>\<rparr>"

definition example_visit_ab :: env where
  "example_visit_ab = example_env\<lparr>rangeOrder := (\<lambda>k i. [''example.com/a'', ''example.com/a/b''])\<rparr>"

definition example_visit_ba :: env where
  "example_visit_ba = example_env\<lparr>rangeOrder := (\<lambda>k i. [''example.com/a/b'', ''example.com/a''])\<rparr>"

definition example_vendored :: world where
  "example_vendored =
     (emit [WatcherAdd ''../vendored/b/c''] initial)\<lparr>watchedDir := [''../vendored/b/c'' \<mapsto> True]\<rparr>"

definition example_both :: world where
  "example_both =
     (emit [WatcherAdd ''../a/b/c''] example_vendored)
       \<lparr>watchedDir := [''../vendored/b/c'' \<mapsto> True, ''../a/b/c'' \<mapsto> True]\<rparr>"

section \<open>Properties of the proxy handler\<close>

declare ServeHTTP_loop.simps [simp del]

lemma ServeHTTP_loop_built [simp]:
  "builtOnce s \<Longrightarrow> ServeHTTP_loop s rest = (respond s @ [RUnlock], True)"
  by (simp add: ServeHTTP_loop.simps)

lemma ServeHTTP_loop_asleep [simp]:
  "\<not> builtOnce s \<Longrightarrow> ServeHTTP_loop s [] = ([RUnlock, Sleep 100], False)"
  by (simp add: ServeHTTP_loop.simps)

lemma ServeHTTP_loop_again [simp]:
  "\<not> builtOnce s \<Longrightarrow> ServeHTTP_loop s (s' # rest) =
     (RUnlock # Sleep 100 # RLock # fst (ServeHTTP_loop s' rest), snd (ServeHTTP_loop s' rest))"
  by (subst ServeHTTP_loop.simps) (simp add: case_prod_beta)

lemma ServeHTTP_loop_unbuilt:
  "\<not> builtOnce s \<Longrightarrow> \<forall>x\<in>set pre. \<not> builtOnce x \<Longrightarrow>
   ServeHTTP_loop s pre = (spins (length pre) @ [RUnlock, Sleep 100], False)"
  by (induction pre arbitrary: s) (simp_all add: spins_def)

lemma ServeHTTP_loop_first_built:
  "\<not> builtOnce s0 \<Longrightarrow> \<forall>x\<in>set pre. \<not> builtOnce x \<Longrightarrow> builtOnce s \<Longrightarrow>
   ServeHTTP_loop s0 (pre @ s # post) = (spins (Suc (length pre)) @ respond s @ [RUnlock], True)"
  by (induction pre arbitrary: s0) (simp_all add: spins_def)

lemma ServeHTTP_unbuilt:
  "\<forall>x\<in>set pre. \<not> builtOnce x \<Longrightarrow>
   ServeHTTP pre =
     (case pre of [] \<Rightarrow> [] | _ # rest \<Rightarrow> RLock # spins (length rest) @ [RUnlock, Sleep 100], False)"
  by (cases pre) (simp_all add: ServeHTTP_def ServeHTTP_loop_unbuilt)

lemma ServeHTTP_first_built:
  "\<forall>x\<in>set pre. \<not> builtOnce x \<Longrightarrow> builtOnce s \<Longrightarrow>
   ServeHTTP (pre @ s # post) = (RLock # spins (length pre) @ respond s @ [RUnlock], True)"
  by (cases pre) (simp_all add: ServeHTTP_def ServeHTTP_loop_first_built spins_def)

lemma set_spins: "set (spins k) \<subseteq> {RLock, RUnlock, Sleep 100}"
  by (induction k) (auto simp: spins_def)

text \<open>
  C1. While the first build has not completed the handler blocks: at every acquisition of
  the shared lease that finds \<open>builtOnce\<close> false it drops the lease, sleeps 100 ms and
  takes the lease again. As long as that is all it has seen, it has not returned and has
  neither written a response nor called the upstream proxy; at the first acquisition
  that finds \<open>builtOnce\<close> true it answers and returns.
\<close>

theorem ServeHTTP_blocks_until_built:
  assumes "\<forall>x\<in>set pre. \<not> builtOnce x"
  shows "snd (ServeHTTP pre) = False
       \<and> fst (ServeHTTP pre) =
           (case pre of [] \<Rightarrow> [] | _ # rest \<Rightarrow> RLock # spins (length rest) @ [RUnlock, Sleep 100])
       \<and> set (fst (ServeHTTP pre)) \<subseteq> {RLock, RUnlock, Sleep 100}
       \<and> (builtOnce s \<longrightarrow>
            ServeHTTP (pre @ s # post) = (RLock # spins (length pre) @ respond s @ [RUnlock], True))"
  using assms set_spins by (auto simp: ServeHTTP_unbuilt ServeHTTP_first_built split: list.splits)

theorem ServeHTTP_blocks_until_built_witness:
  "\<not> builtOnce initial
   \<and> ServeHTTP [initial, initial] = ([RLock, RUnlock, Sleep 100, RLock, RUnlock, Sleep 100], False)
   \<and> ServeHTTP [initial, initial, initial\<lparr>builtOnce := True\<rparr>] =
       ([RLock, RUnlock, Sleep 100, RLock, RUnlock, Sleep 100, RLock, Proxy, RUnlock], True)"
  using ServeHTTP_blocks_until_built [of "[initial, initial]" "initial\<lparr>builtOnce := True\<rparr>" "[]"]
  by (simp add: initial_def spins_def respond_def prod_eq_iff)

text \<open>
  C2, as amended. After the first build the handler answers 502 Bad Gateway with exactly
  the bytes of \<open>errorResponse\<close> and does not call the upstream proxy whenever
  \<open>errorResponse\<close> is not nil (also when it is a non-nil slice of length zero); it
  forwards the request to the upstream proxy when \<open>errorResponse\<close> is nil.
\<close>

theorem ServeHTTP_after_first_build:
  assumes "builtOnce s"
  shows "(\<forall>body. errorResponse s = Some body \<longrightarrow>
            ServeHTTP (s # rest) = ([RLock, WriteHeader 502, Write body, RUnlock], True))
       \<and> (errorResponse s = None \<longrightarrow> ServeHTTP (s # rest) = ([RLock, Proxy, RUnlock], True))"
  using assms by (simp add: ServeHTTP_def respond_def)

theorem ServeHTTP_after_first_build_witness:
  "builtOnce (initial\<lparr>builtOnce := True, errorResponse := Some ''boom''\<rparr>)
   \<and> ServeHTTP [initial\<lparr>builtOnce := True, errorResponse := Some ''boom''\<rparr>] =
       ([RLock, WriteHeader 502, Write ''boom'', RUnlock], True)"
  using ServeHTTP_after_first_build [of "initial\<lparr>builtOnce := True, errorResponse := Some ''boom''\<rparr>" "[]"]
  by simp

section \<open>What watching leaves alone\<close>

lemma emit_fields [simp]:
  "trace (emit es w) = trace w @ es"
  "errorResponse (emit es w) = errorResponse w"
  "builtOnce (emit es w) = builtOnce w"
  "service (emit es w) = service w"
  "waiter (emit es w) = waiter w"
  "watchedDir (emit es w) = watchedDir w"
  by (simp_all add: emit_def)

lemma emit_emit [simp]: "emit es (emit ds w) = emit (ds @ es) w"
  by (simp add: emit_def)

lemma world_of_simps [simp]:
  "world_of (Inr w) = w" "world_of (Inl (c, w)) = w" "world_of (os_Exit c w) = emit [OsExit c] w"
  by (simp_all add: world_of_def os_Exit_def)

lemma frame_refl [simp]: "frame w w"
  by (simp add: frame_def)

lemma frame_trans: "frame a b \<Longrightarrow> frame b c \<Longrightarrow> frame a c"
  by (auto simp: frame_def)

lemma frame_emit: "list_all quiet es \<Longrightarrow> frame w (emit es w)"
  by (simp add: frame_def)

lemma frame_emit_left: "list_all quiet es \<Longrightarrow> frame (emit es w) w' \<Longrightarrow> frame w w'"
  using frame_emit frame_trans by blast

lemma frame_addWatch: "frame w (world_of (addWatch e dir w))"
  by (auto simp: addWatch_def frame_def quiet_def split: option.splits)

lemma frame_watchDependency: "frame w (world_of (watchDependency cfg e k i p w))"
  using frame_addWatch
  by (auto simp: watchDependency_def frame_def quiet_def split: sum.splits)

lemma frame_watchPackage: "frame w (world_of (watchPackage cfg e k i p w))"
  using frame_watchDependency
  by (auto simp: watchPackage_def frame_emit quiet_def)

lemma frame_watchPackages: "frame w (world_of (watchPackages cfg e k i ps w))"
proof (induction ps arbitrary: w i)
  case Nil
  show ?case by simp
next
  case (Cons p ps)
  show ?case
  proof (cases "watchPackage cfg e k i p w")
    case (Inl x)
    with frame_watchPackage [of w cfg e k i p] show ?thesis by simp
  next
    case (Inr w')
    with frame_watchPackage [of w cfg e k i p] Cons.IH [of w' "Suc i"] show ?thesis
      by (auto intro: frame_trans)
  qed
qed

lemma frame_watchListedPackages: "frame w (world_of (watchListedPackages cfg e k out w))"
  by (simp add: watchListedPackages_def frame_watchPackages)

lemma frame_rebuild_list: "frame w (world_of (rebuild_list cfg e w))"
proof -
  define w1 where "w1 = emit [CombinedOutput ''go'' (listCommand cfg)] w"
  have q: "list_all quiet [CombinedOutput ''go'' (listCommand cfg)]"
    by (simp add: quiet_def)
  obtain out err where gl: "goList e = (out, err)" by (cases "goList e")
  have "frame w1 (world_of (rebuild_list cfg e w))"
  proof (cases err)
    case None
    show ?thesis
    proof (cases "watchListedPackages cfg e MainPackage (Some (packageName cfg)) w1")
      case (Inl x)
      with None gl frame_watchListedPackages [of w1 cfg e MainPackage "Some (packageName cfg)"]
      show ?thesis by (simp add: rebuild_list_def w1_def)
    next
      case (Inr w2)
      with None gl frame_watchListedPackages [of w1 cfg e MainPackage "Some (packageName cfg)"]
        frame_watchListedPackages [of w2 cfg e Listed out]
      show ?thesis by (auto simp: rebuild_list_def w1_def intro: frame_trans)
    qed
  next
    case (Some x)
    with gl show ?thesis
      by (cases x) (simp_all add: rebuild_list_def w1_def frame_def quiet_def)
  qed
  with q show ?thesis unfolding w1_def by (rule frame_emit_left)
qed

lemma frame_rebuild_enter: "frame w (world_of (rebuild_enter cfg e w))"
proof -
  have a: "frame w (emit [Lock] w)"
    and b: "frame w (emit [Lock, Printf (''lrt: rebuilding...'' @ [NL]) []] w)"
    by (simp_all add: frame_def quiet_def)
  show ?thesis
  proof (cases "builtOnce w")
    case True
    with b frame_trans [OF b frame_rebuild_list] show ?thesis
      by (simp add: rebuild_enter_def Let_def)
  next
    case False
    with frame_trans [OF a frame_rebuild_list] show ?thesis
      by (simp add: rebuild_enter_def Let_def)
  qed
qed

section \<open>Properties of the rebuild\<close>

lemma rebuild_enter_Inr_frame: "rebuild_enter cfg e w = Inr w1 \<Longrightarrow> frame w w1"
  using frame_rebuild_enter [of w cfg e] by simp

lemma watchListedPackages_Inr_frame:
  "watchListedPackages cfg e k out w = Inr w' \<Longrightarrow> frame w w'"
  using frame_watchListedPackages [of w cfg e k out] by simp

lemma rebuild_reset_fields [simp]:
  "errorResponse (rebuild_reset w) = None"
  "builtOnce (rebuild_reset w) = True"
  "service (rebuild_reset w) = service w"
  "waiter (rebuild_reset w) = waiter w"
  "watchedDir (rebuild_reset w) = watchedDir w"
  "trace (rebuild_reset w) = trace w @ (case service w of None \<Rightarrow> [] | Some c \<Rightarrow> [SignalTERM])"
  by (simp_all add: rebuild_reset_def stopRunningService_def split: option.splits)

lemma reap_fields [simp]:
  "errorResponse (reap e w) = errorResponse w"
  "builtOnce (reap e w) = builtOnce w"
  "service (reap e w) = service w"
  "waiter (reap e w) = (if oldChildReaped e then 0 else waiter w)"
  "watchedDir (reap e w) = watchedDir w"
  "trace (reap e w) = trace w"
  by (simp_all add: reap_def)

lemma rebuild_build_ExitError:
  "goBuild e = (out, Some (ExitError msg)) \<Longrightarrow>
   rebuild_build cfg e w =
     Inr ((emit [Print (string_of out)] (reap e (emit [CombinedOutput ''go'' (buildCommand cfg)] w)))
            \<lparr>errorResponse := out\<rparr>)"
  by (simp add: rebuild_build_def)

lemma rebuild_build_OtherError:
  "goBuild e = (out, Some (OtherError msg)) \<Longrightarrow>
   rebuild_build cfg e w =
     os_Exit 1 (emit [Fprint_stderr (''lrt: '' @ msg)]
                  (reap e (emit [CombinedOutput ''go'' (buildCommand cfg)] w)))"
  by (simp add: rebuild_build_def)

lemma rebuild_build_ok:
  "goBuild e = (out, None) \<Longrightarrow>
   rebuild_build cfg e w =
     rebuild_boot cfg e out (reap e (emit [CombinedOutput ''go'' (buildCommand cfg)] w))"
  by (simp add: rebuild_build_def)


lemma ServeHTTP_built:
  "builtOnce s \<Longrightarrow> ServeHTTP [s] = (RLock # respond s @ [RUnlock], True)"
  by (simp add: ServeHTTP_def)

lemma rebuild_list_error:
  "goList e = (lout, Some lerr) \<Longrightarrow>
   \<exists>w'. rebuild_list cfg e w = Inl (1, w') \<and> errorResponse w' = errorResponse w
        \<and> builtOnce w' = builtOnce w"
  by (cases lerr) (simp_all add: rebuild_list_def os_Exit_def)

lemma rebuild_enter_list_error:
  assumes "\<not> builtOnce w \<or> errorResponse w \<noteq> None" and "goList e = (lout, Some lerr)"
  shows "\<exists>w'. rebuild_enter cfg e w = Inl (1, w') \<and> errorResponse w' = errorResponse w
              \<and> builtOnce w' = builtOnce w"
proof (cases "builtOnce w")
  case True
  with assms(1)
  have "rebuild_enter cfg e w =
          rebuild_list cfg e (emit [Lock, Printf (''lrt: rebuilding...'' @ [NL]) []] w)"
    by (simp add: rebuild_enter_def Let_def)
  with rebuild_list_error [OF assms(2), of cfg "emit [Lock, Printf (''lrt: rebuilding...'' @ [NL]) []] w"]
  show ?thesis by simp
next
  case False
  then have "rebuild_enter cfg e w = rebuild_list cfg e (emit [Lock] w)"
    by (simp add: rebuild_enter_def Let_def)
  with rebuild_list_error [OF assms(2), of cfg "emit [Lock] w"]
  show ?thesis by simp
qed

lemma rebuild_boot_outcome:
  "errorResponse (world_of (rebuild_boot cfg e out w)) =
     (case rebuild_boot cfg e out w of
        Inl x \<Rightarrow> errorResponse w
      | Inr w' \<Rightarrow>
          (case boot e of ChildExited \<Rightarrow> Some (exitedMessage cfg)
           | TimedOut \<Rightarrow> Some (timeoutMessage cfg) | Listening \<Rightarrow> errorResponse w))"
proof (cases "watchListedPackages cfg e Built out w")
  case (Inl x)
  with frame_watchListedPackages [of w cfg e Built out] show ?thesis
    by (simp add: rebuild_boot_def frame_def)
next
  case (Inr w1)
  then have "errorResponse w1 = errorResponse w"
    using watchListedPackages_Inr_frame by (simp add: frame_def)
  with Inr show ?thesis
    by (cases "startError e"; cases "boot e")
       (simp_all add: rebuild_boot_def Let_def waiter_Wait_def os_Exit_def)
qed

lemma rebuild_after_build:
  assumes "rebuild_enter cfg e w = Inr w1" and "goBuild e = (out, None)"
  shows "errorResponse (world_of (rebuild cfg e w)) =
           (case rebuild cfg e w of
              Inl x \<Rightarrow> None
            | Inr w' \<Rightarrow>
                (case boot e of ChildExited \<Rightarrow> Some (exitedMessage cfg)
                 | TimedOut \<Rightarrow> Some (timeoutMessage cfg) | Listening \<Rightarrow> None))"
proof -
  define v where "v = reap e (emit [CombinedOutput ''go'' (buildCommand cfg)] (rebuild_reset w1))"
  have n: "errorResponse v = None" by (simp add: v_def)
  have r: "rebuild cfg e w =
             (case rebuild_boot cfg e out v of Inl x \<Rightarrow> Inl x | Inr w2 \<Rightarrow> Inr (emit [Unlock] w2))"
    using assms by (simp add: rebuild_def rebuild_build_ok v_def)
  show ?thesis
  proof (cases "rebuild_boot cfg e out v")
    case (Inl x)
    with rebuild_boot_outcome [of cfg e out v] n r show ?thesis by simp
  next
    case (Inr w2)
    with rebuild_boot_outcome [of cfg e out v] n r show ?thesis
      by (simp split: boot_outcome.splits)
  qed
qed

text \<open>
  C3, as amended. A rebuild first takes the exclusive lock and, on the first rebuild or
  when \<open>errorResponse\<close> is not nil, runs \<open>go list\<close>; any error of \<open>go list\<close>, a non-zero exit
  included, ends the process with status 1 and leaves \<open>errorResponse\<close> as it was. Whenever
  the process ends in this first part, \<open>errorResponse\<close> is as it was. A rebuild that gets
  past it sets \<open>errorResponse\<close> to nil before it runs the build command, so that what the
  rebuild leaves in \<open>errorResponse\<close> never is the old value: when the build command exits
  non-zero, \<open>rebuild\<close> returns (the process goes on) with \<open>errorResponse\<close> set to exactly
  the captured output, which the handler then serves as the 502 body; of the errors of
  the build command exactly those that are not a non-zero exit end the process, with
  status 1 and \<open>errorResponse\<close> nil; and after a successful build \<open>errorResponse\<close> is nil,
  unless the rebuild returns with the message of a failed boot.
\<close>

theorem rebuild_failure_handling:
  "((\<not> builtOnce w \<or> errorResponse w \<noteq> None) \<and> goList e = (lout, Some lerr) \<longrightarrow>
      (\<exists>w'. rebuild cfg e w = Inl (1, w') \<and> errorResponse w' = errorResponse w))
   \<and> (rebuild_enter cfg e w = Inl x \<longrightarrow>
        rebuild cfg e w = Inl x \<and> errorResponse (snd x) = errorResponse w)
   \<and> (rebuild_enter cfg e w = Inr w1 \<longrightarrow>
        (\<forall>out msg. goBuild e = (out, Some (ExitError msg)) \<longrightarrow>
           (\<exists>w'. rebuild cfg e w = Inr w' \<and> errorResponse w' = out \<and> builtOnce w'
                \<and> (\<forall>d. out = Some d \<longrightarrow>
                      ServeHTTP [w'] = ([RLock, WriteHeader 502, Write d, RUnlock], True))))
      \<and> (\<forall>out msg. goBuild e = (out, Some (OtherError msg)) \<longrightarrow>
           (\<exists>w'. rebuild cfg e w = Inl (1, w') \<and> errorResponse w' = None))
      \<and> (\<forall>out err. goBuild e = (out, Some err) \<longrightarrow>
           ((\<exists>y. rebuild cfg e w = Inl y) \<longleftrightarrow> (\<exists>msg. err = OtherError msg)))
      \<and> (\<forall>out. goBuild e = (out, None) \<longrightarrow>
           errorResponse (world_of (rebuild cfg e w)) =
             (case rebuild cfg e w of
                Inl y \<Rightarrow> None
              | Inr w' \<Rightarrow>
                  (case boot e of ChildExited \<Rightarrow> Some (exitedMessage cfg)
                   | TimedOut \<Rightarrow> Some (timeoutMessage cfg) | Listening \<Rightarrow> None))))"
proof (intro conjI allI impI)
  assume a: "(\<not> builtOnce w \<or> errorResponse w \<noteq> None) \<and> goList e = (lout, Some lerr)"
  then obtain w' where "rebuild_enter cfg e w = Inl (1, w')" "errorResponse w' = errorResponse w"
    using rebuild_enter_list_error [of w e lout lerr cfg] by blast
  then show "\<exists>w'. rebuild cfg e w = Inl (1, w') \<and> errorResponse w' = errorResponse w"
    by (simp add: rebuild_def)
next
  assume "rebuild_enter cfg e w = Inl x"
  then show "rebuild cfg e w = Inl x" by (simp add: rebuild_def)
next
  assume "rebuild_enter cfg e w = Inl x"
  with frame_rebuild_enter [of w cfg e] show "errorResponse (snd x) = errorResponse w"
    by (cases x) (simp add: frame_def)
next
  fix out msg
  assume "rebuild_enter cfg e w = Inr w1" "goBuild e = (out, Some (ExitError msg))"
  then show "\<exists>w'. rebuild cfg e w = Inr w' \<and> errorResponse w' = out \<and> builtOnce w'
                 \<and> (\<forall>d. out = Some d \<longrightarrow>
                       ServeHTTP [w'] = ([RLock, WriteHeader 502, Write d, RUnlock], True))"
    by (simp add: rebuild_def rebuild_build_ExitError ServeHTTP_built respond_def)
next
  fix out msg
  assume "rebuild_enter cfg e w = Inr w1" "goBuild e = (out, Some (OtherError msg))"
  then show "\<exists>w'. rebuild cfg e w = Inl (1, w') \<and> errorResponse w' = None"
    by (simp add: rebuild_def rebuild_build_OtherError os_Exit_def)
next
  fix out err
  assume "rebuild_enter cfg e w = Inr w1" "goBuild e = (out, Some err)"
  then show "(\<exists>y. rebuild cfg e w = Inl y) \<longleftrightarrow> (\<exists>msg. err = OtherError msg)"
    by (cases err)
       (simp_all add: rebuild_def rebuild_build_ExitError rebuild_build_OtherError os_Exit_def)
next
  fix out
  assume "rebuild_enter cfg e w = Inr w1" "goBuild e = (out, None)"
  then show "errorResponse (world_of (rebuild cfg e w)) =
             (case rebuild cfg e w of
                Inl y \<Rightarrow> None
              | Inr w' \<Rightarrow>
                  (case boot e of ChildExited \<Rightarrow> Some (exitedMessage cfg)
                   | TimedOut \<Rightarrow> Some (timeoutMessage cfg) | Listening \<Rightarrow> None))"
    by (rule rebuild_after_build)
qed



text \<open>
  C9, as amended. In a rebuild whose build command exits non-zero, SIGTERM is sent to the
  running child before the build command is run, and \<open>rebuild\<close> returns without waiting
  for that child: \<open>waiter\<close> is what it was unless the child has exited by itself
  meanwhile. Requests then get the diagnostics as a 502 and are not forwarded.
\<close>

theorem build_failure_does_not_reap:
  assumes "rebuild_enter cfg e w = Inr w1" and "goBuild e = (out, Some (ExitError msg))"
  shows "rebuild cfg e w =
           Inr ((emit ((case service w1 of None \<Rightarrow> [] | Some c \<Rightarrow> [SignalTERM]) @
                       [CombinedOutput ''go'' (buildCommand cfg), Print (string_of out), Unlock]) w1)
                  \<lparr>builtOnce := True, errorResponse := out,
                    waiter := (if oldChildReaped e then 0 else waiter w1)\<rparr>)
       \<and> service w1 = service w \<and> waiter w1 = waiter w
       \<and> (\<forall>d. out = Some d \<longrightarrow>
            ServeHTTP [world_of (rebuild cfg e w)] = ([RLock, WriteHeader 502, Write d, RUnlock], True))"
proof -
  from assms(1) have f: "service w1 = service w \<and> waiter w1 = waiter w"
    using rebuild_enter_Inr_frame by (simp add: frame_def)
  have r: "rebuild cfg e w =
           Inr ((emit ((case service w1 of None \<Rightarrow> [] | Some c \<Rightarrow> [SignalTERM]) @
                       [CombinedOutput ''go'' (buildCommand cfg), Print (string_of out), Unlock]) w1)
                  \<lparr>builtOnce := True, errorResponse := out,
                    waiter := (if oldChildReaped e then 0 else waiter w1)\<rparr>)"
    using assms
    by (simp add: rebuild_def rebuild_build_ExitError rebuild_reset_def stopRunningService_def
          reap_def emit_def split: option.splits)
  show ?thesis using f r by (simp add: ServeHTTP_built respond_def)
qed

section \<open>The rebuild on the sample inputs\<close>

lemma example_lines:
  "SplitNL (TrimSpace example_listing) = [''example.com/app/lib'', ''fmt'']"
  "SplitNL (TrimSpace ''.'') = [''.'']"
  by code_simp+

lemma example_noise:
  "noise ''example.com/app/lib'' = False" "noise ''fmt'' = False" "noise ''.'' = False"
  by code_simp+

lemma rangeReplace_empty [simp]: "rangeReplace p Map.empty order dir = dir"
  by (induction order arbitrary: dir) simp_all

lemma example_resolve:
  "resolve example_config e k i ''example.com/app/lib'' = Inr ''/src/app/lib''"
  "resolve example_config e k i ''fmt'' = Inr []"
  "resolve example_config e k i ''.'' = Inr []"
  by (simp_all add: resolve_def example_config_def moduleDir_def TrimPrefix_def)

lemma example_watch_main:
  "watchListedPackages example_config e k (Some (packageName example_config)) w = Inr w"
proof -
  have "packageName example_config = ''.''" by (simp add: example_config_def)
  then show ?thesis
    by (simp add: watchListedPackages_def string_of_def example_lines watchPackage_def
          example_noise watchDependency_def example_resolve addWatch_def)
qed

lemma example_watch_list:
  "watchListedPackages example_config e k (Some example_listing) w =
     addWatch e ''/src/app/lib'' w"
  by (cases "addWatch e ''/src/app/lib'' w")
     (simp_all add: watchListedPackages_def string_of_def example_lines watchPackage_def
          example_noise watchDependency_def example_resolve addWatch_def [of _ "[]"])

lemma example_env_fields [simp]:
  "goList example_env = (Some example_listing, None)"
  "goBuild example_env = (Some [], None)"
  "oldChildReaped example_env = False"
  "startError example_env = None"
  "boot example_env = Listening"
  "environ example_env = [''HOME=/root'']"
  "Add example_env d = None"
  by (simp_all add: example_env_def)

lemma example_env_broken_fields [simp]:
  "goList example_env_broken = (Some example_listing, None)"
  "goBuild example_env_broken = (Some ''x.go:1: bad'', Some (ExitError ''exit status 2''))"
  "oldChildReaped example_env_broken = False"
  "Add example_env_broken d = None"
  by (simp_all add: example_env_broken_def example_env_def)

lemma example_enter_first:
  "Add e ''/src/app/lib'' = None \<Longrightarrow>
   goList e = (Some example_listing, None) \<Longrightarrow>
   rebuild_enter example_config e initial = Inr example_entered"
  by (simp add: rebuild_enter_def rebuild_list_def Let_def example_watch_main example_watch_list
        addWatch_def watched_def initial_def example_entered_def emit_def)

lemma example_watch_nothing:
  "watchListedPackages cfg e k (Some []) w = Inr w"
proof -
  have "SplitNL (TrimSpace []) = [[]]" by code_simp
  then show ?thesis
    by (simp add: watchListedPackages_def string_of_def watchPackage_def)
qed

lemma example_startService:
  "environ e = [''HOME=/root''] \<Longrightarrow>
   startService example_config e =
     \<lparr>Path = ''/tmp/lrt-service1'', Args = [], Env = [''HOME=/root'', ''PORT=40001'']\<rparr>"
proof -
  have "Port (serviceURL example_config) = ''40001''" by code_simp
  then show "environ e = [''HOME=/root''] \<Longrightarrow> ?thesis"
    by (simp add: startService_def example_config_def)
qed

lemma example_env_crash_fields [simp]:
  "goList example_env_crash = (Some example_listing, None)"
  "goBuild example_env_crash = (Some [], None)"
  "oldChildReaped example_env_crash = False"
  "startError example_env_crash = None"
  "boot example_env_crash = ChildExited"
  "environ example_env_crash = [''HOME=/root'']"
  "Add example_env_crash d = None"
  by (simp_all add: example_env_crash_def example_env_def)

lemma example_first_rebuild:
  "rebuild example_config example_env initial = Inr example_running"
  by (simp add: rebuild_def example_enter_first rebuild_build_def rebuild_boot_def Let_def
        example_watch_nothing example_startService waiter_Wait_def reap_def rebuild_reset_def
        stopRunningService_def example_entered_def example_running_def emit_def)


lemma example_reenter:
  "rebuild_enter cfg e example_running =
     Inr (emit [Lock, Printf (''lrt: rebuilding...'' @ [NL]) []] example_running)"
  by (simp add: rebuild_enter_def Let_def example_running_def emit_def)

text \<open>
  C3 as amended on the sample: a first rebuild whose build fails with \<open>x.go:1: bad\<close>
  returns and leaves that text as the 502 body; the next rebuild, in which \<open>go list\<close>
  exits non-zero, ends the process.
\<close>

theorem rebuild_failure_handling_witness:
  "rebuild_enter example_config example_env_broken initial = Inr example_entered
   \<and> goBuild example_env_broken = (Some ''x.go:1: bad'', Some (ExitError ''exit status 2''))
   \<and> errorResponse (world_of (rebuild example_config example_env_broken initial)) = Some ''x.go:1: bad''
   \<and> ServeHTTP [world_of (rebuild example_config example_env_broken initial)] =
        ([RLock, WriteHeader 502, Write ''x.go:1: bad'', RUnlock], True)
   \<and> errorResponse example_failed \<noteq> None
   \<and> goList example_env_unlisted = (Some ''go: cannot find main module'', Some (ExitError ''exit status 1''))
   \<and> fst (projl (rebuild example_config example_env_unlisted example_failed)) = 1
   \<and> errorResponse (world_of (rebuild example_config example_env_unlisted example_failed)) =
        errorResponse example_failed"
proof -
  have enter: "rebuild_enter example_config example_env_broken initial = Inr example_entered"
    by (simp add: example_enter_first)
  note c = rebuild_failure_handling [of initial example_env_broken _ _ example_config _ example_entered,
      THEN conjunct2, THEN conjunct2, rule_format, OF enter, THEN conjunct1]
  have g: "goBuild example_env_broken = (Some ''x.go:1: bad'', Some (ExitError ''exit status 2''))"
    by simp
  from c [rule_format, OF g] obtain w' where
    "rebuild example_config example_env_broken initial = Inr w'"
    "errorResponse w' = Some ''x.go:1: bad''"
    "ServeHTTP [w'] = ([RLock, WriteHeader 502, Write ''x.go:1: bad'', RUnlock], True)"
    by auto
  then have 1: "errorResponse (world_of (rebuild example_config example_env_broken initial)) = Some ''x.go:1: bad''
    \<and> ServeHTTP [world_of (rebuild example_config example_env_broken initial)] =
        ([RLock, WriteHeader 502, Write ''x.go:1: bad'', RUnlock], True)"
    by simp
  have f: "errorResponse example_failed \<noteq> None"
    by (simp add: example_failed_def)
  have l: "goList example_env_unlisted = (Some ''go: cannot find main module'', Some (ExitError ''exit status 1''))"
    by (simp add: example_env_unlisted_def)
  note d = rebuild_failure_handling [of example_failed example_env_unlisted
      "Some ''go: cannot find main module''" "ExitError ''exit status 1''" example_config,
      THEN conjunct1, rule_format]
  from d f l obtain v where
    "rebuild example_config example_env_unlisted example_failed = Inl (1, v)"
    "errorResponse v = errorResponse example_failed"
    by blast
  then have 2: "fst (projl (rebuild example_config example_env_unlisted example_failed)) = 1
    \<and> errorResponse (world_of (rebuild example_config example_env_unlisted example_failed)) =
        errorResponse example_failed"
    by simp
  from enter g 1 f l 2 show ?thesis by simp
qed


text \<open>
  C9 as amended on the sample: a failing rebuild after a successful one.
\<close>

theorem build_failure_does_not_reap_witness:
  "rebuild_enter example_config example_env_broken example_running =
     Inr (emit [Lock, Printf (''lrt: rebuilding...'' @ [NL]) []] example_running)
   \<and> goBuild example_env_broken = (Some ''x.go:1: bad'', Some (ExitError ''exit status 2''))
   \<and> waiter (world_of (rebuild example_config example_env_broken example_running)) = 1
   \<and> ServeHTTP [world_of (rebuild example_config example_env_broken example_running)] =
        ([RLock, WriteHeader 502, Write ''x.go:1: bad'', RUnlock], True)"
proof -
  have g: "goBuild example_env_broken = (Some ''x.go:1: bad'', Some (ExitError ''exit status 2''))"
    by simp
  note t = build_failure_does_not_reap [OF example_reenter g, of example_config]
  have w: "waiter example_running = 1" by (simp add: example_running_def)
  from t have "waiter (world_of (rebuild example_config example_env_broken example_running)) = 1"
    by (simp add: w)
  moreover from t have
    "ServeHTTP [world_of (rebuild example_config example_env_broken example_running)] =
        ([RLock, WriteHeader 502, Write ''x.go:1: bad'', RUnlock], True)"
    by blast
  ultimately show ?thesis using g example_reenter by simp
qed

lemma example_second_rebuild:
  "rebuild example_config example_env_broken example_running =
        Inr (example_running
               \<lparr>errorResponse := Some ''x.go:1: bad'',
                trace := trace example_running @
                  [Lock, Printf (''lrt: rebuilding...'' @ [NL]) [], SignalTERM,
                   CombinedOutput ''go'' (buildCommand example_config), Print ''x.go:1: bad'', Unlock]\<rparr>)"
proof -
  have s: "service example_running \<noteq> None" "builtOnce example_running"
    by (simp_all add: example_running_def)
  then show ?thesis
    by (auto simp: rebuild_def example_reenter rebuild_build_def Let_def reap_def rebuild_reset_def
          stopRunningService_def string_of_def emit_def)
qed

lemma example_third_rebuild:
  "rebuild example_config example_env_unlisted example_failed =
     Inl (1, emit [Lock, Printf (''lrt: rebuilding...'' @ [NL]) [],
                   CombinedOutput ''go'' (listCommand example_config),
                   Fprint_stderr ''lrt: go: cannot find main module'', OsExit 1] example_failed)"
  by (simp add: rebuild_def rebuild_enter_def rebuild_list_def Let_def os_Exit_def
        example_failed_def example_running_def example_env_unlisted_def example_env_def
        string_of_def emit_def)

text \<open>
  C3 as stated fails for a rebuild in which \<open>go list\<close> exits non-zero. The build of the
  second rebuild fails, so the third rebuild runs \<open>go list\<close> again; this time it exits
  non-zero, and the process ends with status 1 while \<open>errorResponse\<close> still holds the
  diagnostics of the second rebuild: it was not cleared, and a non-zero exit was fatal.
\<close>

theorem go_list_failure_fatal_counterexample:
  "rebuild example_config example_env_broken example_running = Inr example_failed
   \<and> errorResponse example_failed = Some ''x.go:1: bad''
   \<and> goList example_env_unlisted = (Some ''go: cannot find main module'', Some (ExitError ''exit status 1''))
   \<and> rebuild example_config example_env_unlisted example_failed =
       Inl (1, emit [Lock, Printf (''lrt: rebuilding...'' @ [NL]) [],
                     CombinedOutput ''go'' (listCommand example_config),
                     Fprint_stderr ''lrt: go: cannot find main module'', OsExit 1] example_failed)
   \<and> errorResponse (world_of (rebuild example_config example_env_unlisted example_failed)) =
       Some ''x.go:1: bad''"
  by (simp add: example_second_rebuild example_third_rebuild)
     (simp add: example_failed_def example_env_unlisted_def)

text \<open>
  C9 as stated fails: after a successful rebuild one child runs; the next rebuild fails
  to build and returns with that child signalled but not waited for (\<open>waiter\<close> is still 1
  and no \<open>WaiterWait\<close> happened).
\<close>

theorem build_failure_leaves_child_counterexample:
  "rebuild example_config example_env initial = Inr example_running
   \<and> waiter example_running = 1
   \<and> service example_running =
        Some \<lparr>Path = ''/tmp/lrt-service1'', Args = [], Env = [''HOME=/root'', ''PORT=40001'']\<rparr>
   \<and> rebuild example_config example_env_broken example_running =
        Inr (example_running
               \<lparr>errorResponse := Some ''x.go:1: bad'',
                trace := trace example_running @
                  [Lock, Printf (''lrt: rebuilding...'' @ [NL]) [], SignalTERM,
                   CombinedOutput ''go'' (buildCommand example_config), Print ''x.go:1: bad'', Unlock]\<rparr>)
   \<and> waiter (world_of (rebuild example_config example_env_broken example_running)) = 1"
  by (simp add: example_first_rebuild example_second_rebuild) (simp add: example_running_def)

section \<open>Shutdown and the noise lines\<close>

text \<open>
  C6. On SIGTERM or SIGINT the parent takes the exclusive lock, signals the child, waits
  for it to be reaped and exits with status 0. The temporary executable is not deleted:
  its removal is deferred in \<open>main\<close> and would run only if \<open>main\<close> returned, while the
  shutdown path ends the process with \<open>os.Exit\<close>.
\<close>

theorem shutdown_skips_removal:
  "fst (shutdown cfg w) = 0
   \<and> trace (snd (shutdown cfg w)) =
       trace w @ [Lock] @ (case service w of None \<Rightarrow> [] | Some c \<Rightarrow> [SignalTERM]) @ [WaiterWait, OsExit 0]
   \<and> Remove (tmpFile cfg) \<notin> set (drop (length (trace w)) (trace (snd (shutdown cfg w))))
   \<and> trace (main_ends cfg Returns w) = trace w @ [Remove (tmpFile cfg)]"
  by (simp add: shutdown_def main_ends_def waiter_Wait_def stopRunningService_def split: option.splits)

lemma addWatch_Inr_echo:
  "addWatch e dir w = Inr w' \<Longrightarrow> \<exists>es. trace w' = trace w @ es \<and> filter is_echo es = []"
  by (auto simp: addWatch_def os_Exit_def is_echo_def split: if_splits option.splits)

lemma watchPackage_Inr_echo:
  assumes "watchPackage cfg e k i p w = Inr w'"
  shows "\<exists>es. trace w' = trace w @ es \<and> filter is_echo es = echoes [p]"
proof (cases "p = [] \<or> noise p")
  case True
  with assms show ?thesis
    by (auto simp: watchPackage_def echoes_def is_echo_def split: if_splits)
next
  case False
  with assms obtain dir where "addWatch e dir w = Inr w'"
    by (auto simp: watchPackage_def watchDependency_def os_Exit_def split: sum.splits)
  with False addWatch_Inr_echo show ?thesis by (simp add: echoes_def)
qed

lemma watchPackages_Inr_echo:
  "watchPackages cfg e k i ps w = Inr w' \<Longrightarrow>
   \<exists>es. trace w' = trace w @ es \<and> filter is_echo es = echoes ps"
proof (induction ps arbitrary: w i)
  case Nil
  then show ?case by (simp add: echoes_def)
next
  case (Cons p ps)
  then obtain w1 where a: "watchPackage cfg e k i p w = Inr w1"
    and b: "watchPackages cfg e k (Suc i) ps w1 = Inr w'"
    by (auto split: sum.splits)
  from watchPackage_Inr_echo [OF a] obtain es1 where
    e1: "trace w1 = trace w @ es1" "filter is_echo es1 = echoes [p]" by blast
  from Cons.IH [OF b] obtain es2 where
    e2: "trace w' = trace w1 @ es2" "filter is_echo es2 = echoes ps" by blast
  from e1 e2 have "trace w' = trace w @ (es1 @ es2) \<and> filter is_echo (es1 @ es2) = echoes (p # ps)"
    by (simp add: echoes_def)
  then show ?case by blast
qed

text \<open>
  C8, as amended. A line of the output that is empty is skipped silently: it is neither
  echoed nor resolved. A non-empty line that begins with \<open># \<close>, \<open>ld:\<close> or \<open>go:\<close>, or that
  is all white space (in the sense of \<open>strings.TrimSpace\<close>, which knows the white space of
  Unicode), is echoed to standard error as it is (followed by a newline) and nothing else
  happens for it. Every other line is treated as a dependency identifier:
  it is resolved to a directory, which is watched if it is new. Over a whole output the
  lines echoed are exactly the non-empty noise lines, in order.
\<close>

theorem watch_line_classification:
  "(p = [] \<longrightarrow> watchPackage cfg e k i p w = Inr w)
   \<and> (p \<noteq> [] \<and> (HasPrefix p ''# '' \<or> HasPrefix p ''ld:'' \<or> HasPrefix p ''go:'' \<or> TrimSpace p = []) \<longrightarrow>
        watchPackage cfg e k i p w = Inr (emit [Fprintln_stderr p] w))
   \<and> (p \<noteq> [] \<and> \<not> HasPrefix p ''# '' \<and> \<not> HasPrefix p ''ld:'' \<and> \<not> HasPrefix p ''go:'' \<and> TrimSpace p \<noteq> [] \<longrightarrow>
        watchPackage cfg e k i p w =
          (case resolve cfg e k i p of
             Inl err \<Rightarrow> os_Exit 1 (emit [Fprintf_stderr (''lrt: '' @ err) [[NL]]] w)
           | Inr dir \<Rightarrow> addWatch e dir w))
   \<and> (watchListedPackages cfg e k out w = Inr w' \<longrightarrow>
        filter is_echo (drop (length (trace w)) (trace w')) =
          map Fprintln_stderr
            (filter (\<lambda>p. p \<noteq> [] \<and> (HasPrefix p ''# '' \<or> HasPrefix p ''ld:'' \<or> HasPrefix p ''go:'' \<or> TrimSpace p = []))
               (SplitNL (TrimSpace (string_of out)))))"
proof (intro conjI impI)
  assume "watchListedPackages cfg e k out w = Inr w'"
  then obtain es where "trace w' = trace w @ es"
    "filter is_echo es = echoes (SplitNL (TrimSpace (string_of out)))"
    using watchPackages_Inr_echo [of cfg e k 0 "SplitNL (TrimSpace (string_of out))" w w']
    by (auto simp: watchListedPackages_def)
  moreover have "\<And>p. noise p = (HasPrefix p ''# '' \<or> HasPrefix p ''ld:'' \<or> HasPrefix p ''go:'' \<or> TrimSpace p = [])"
    by (auto simp: noise_def)
  ultimately show "filter is_echo (drop (length (trace w)) (trace w')) =
          map Fprintln_stderr
            (filter (\<lambda>p. p \<noteq> [] \<and> (HasPrefix p ''# '' \<or> HasPrefix p ''ld:'' \<or> HasPrefix p ''go:'' \<or> TrimSpace p = []))
               (SplitNL (TrimSpace (string_of out))))"
    by (simp add: echoes_def)
qed (auto simp: watchPackage_def noise_def watchDependency_def)

lemma example_noisy_lines:
  "SplitNL (TrimSpace example_noisy) = [''# example.com/app'', [], ''  '', ''ld: warning'']"
  by code_simp

lemma example_noisy_noise:
  "noise ''# example.com/app''" "noise ''  ''" "noise ''ld: warning''"
  by code_simp+

text \<open>
  C8 as stated fails for an empty line: the output below has one, and nothing is echoed
  for it.
\<close>

theorem empty_line_not_echoed_counterexample:
  "SplitNL (TrimSpace (string_of (Some example_noisy))) = [''# example.com/app'', [], ''  '', ''ld: warning'']
   \<and> watchListedPackages example_config example_env Listed (Some example_noisy) initial =
       Inr (emit [Fprintln_stderr ''# example.com/app'', Fprintln_stderr ''  '', Fprintln_stderr ''ld: warning''] initial)
   \<and> Fprintln_stderr [] \<notin> set (trace (world_of (watchListedPackages example_config example_env Listed (Some example_noisy) initial)))"
proof -
  have l: "watchListedPackages example_config example_env Listed (Some example_noisy) initial =
       Inr (emit [Fprintln_stderr ''# example.com/app'', Fprintln_stderr ''  '', Fprintln_stderr ''ld: warning''] initial)"
    by (simp add: watchListedPackages_def string_of_def example_noisy_lines watchPackage_def
        example_noisy_noise)
  have "Fprintln_stderr [] \<notin> set (trace (world_of (watchListedPackages example_config example_env Listed (Some example_noisy) initial)))"
    unfolding l by (simp add: world_of_def emit_def initial_def)
  with l show ?thesis by (simp add: string_of_def example_noisy_lines)
qed

text \<open>
  C8 as amended on the sample: an empty line, a noise line, a line made of a no-break
  space (U+00A0) and a dependency.
\<close>

theorem watch_line_classification_witness:
  "watchPackage example_config example_env Listed 0 [] initial = Inr initial
   \<and> watchPackage example_config example_env Listed 0 ''ld: warning'' initial = Inr (emit [Fprintln_stderr ''ld: warning''] initial)
   \<and> watchPackage example_config example_env Listed 0 [CHR 0xC2, CHR 0xA0] initial =
       Inr (emit [Fprintln_stderr [CHR 0xC2, CHR 0xA0]] initial)
   \<and> watchPackage example_config example_env Listed 0 ''example.com/app/lib'' initial =
       Inr ((emit [WatcherAdd ''/src/app/lib''] initial)\<lparr>watchedDir := [''/src/app/lib'' \<mapsto> True]\<rparr>)
   \<and> filter is_echo (trace (world_of (watchListedPackages example_config example_env Listed (Some example_noisy) initial))) =
       [Fprintln_stderr ''# example.com/app'', Fprintln_stderr ''  '', Fprintln_stderr ''ld: warning'']"
proof -
  note t = watch_line_classification
  have a: "watchPackage example_config example_env Listed 0 [] initial = Inr initial"
    using t [of "[]" example_config example_env Listed 0 initial] by simp
  have n: "HasPrefix ''ld: warning'' ''ld:''" by simp
  have b: "watchPackage example_config example_env Listed 0 ''ld: warning'' initial = Inr (emit [Fprintln_stderr ''ld: warning''] initial)"
    using t [of "''ld: warning''" example_config example_env Listed 0 initial] n by simp
  have s: "TrimSpace [CHR 0xC2, CHR 0xA0] = []"
    by (simp add: TrimSpace_def TrimLeftSpace_def TrimRightSpace_def whiteSpace_def)
  have b': "watchPackage example_config example_env Listed 0 [CHR 0xC2, CHR 0xA0] initial =
       Inr (emit [Fprintln_stderr [CHR 0xC2, CHR 0xA0]] initial)"
    using t [of "[CHR 0xC2, CHR 0xA0]" example_config example_env Listed 0 initial] s by simp
  have m: "\<not> HasPrefix ''example.com/app/lib'' ''# ''" "\<not> HasPrefix ''example.com/app/lib'' ''ld:''"
    "\<not> HasPrefix ''example.com/app/lib'' ''go:''" "TrimSpace ''example.com/app/lib'' \<noteq> []"
    by code_simp+
  have r: "resolve example_config example_env Listed 0 ''example.com/app/lib'' = Inr ''/src/app/lib''"
    by (rule example_resolve)
  have c: "watchPackage example_config example_env Listed 0 ''example.com/app/lib'' initial =
       Inr ((emit [WatcherAdd ''/src/app/lib''] initial)\<lparr>watchedDir := [''/src/app/lib'' \<mapsto> True]\<rparr>)"
    using t [of "''example.com/app/lib''" example_config example_env Listed 0 initial] m r
    by (simp add: addWatch_def watched_def initial_def example_env_def)
  have l: "watchListedPackages example_config example_env Listed (Some example_noisy) initial =
       Inr (emit [Fprintln_stderr ''# example.com/app'', Fprintln_stderr ''  '', Fprintln_stderr ''ld: warning''] initial)"
    by (simp add: watchListedPackages_def string_of_def example_noisy_lines watchPackage_def
        example_noisy_noise)
  have d: "filter is_echo (trace (world_of (watchListedPackages example_config example_env Listed (Some example_noisy) initial))) =
       [Fprintln_stderr ''# example.com/app'', Fprintln_stderr ''  '', Fprintln_stderr ''ld: warning'']"
    unfolding l by (simp add: world_of_def emit_def initial_def is_echo_def)
  from a b b' c d show ?thesis by simp
qed

section \<open>The service port across rebuilds\<close>

lemma extends_refl [simp]: "extends P w w"
  by (simp add: extends_def)

lemma extends_trans: "extends P a b \<Longrightarrow> extends P b c \<Longrightarrow> extends P a c"
  by (auto simp: extends_def)

lemma extends_trace: "trace w' = trace w @ es \<Longrightarrow> list_all P es \<Longrightarrow> extends P w w'"
  by (auto simp: extends_def)

lemma quiet_rebuild_event: "quiet ev \<Longrightarrow> rebuild_event cfg e ev"
  by (cases ev) (simp_all add: quiet_def rebuild_event_def)

lemma frame_extends: "frame w w' \<Longrightarrow> extends (rebuild_event cfg e) w w'"
  by (auto simp: frame_def extends_def list_all_iff quiet_rebuild_event)

lemma extends_rebuild_boot:
  "extends (rebuild_event cfg e) w (world_of (rebuild_boot cfg e out w))"
proof (cases "watchListedPackages cfg e Built out w")
  case (Inl x)
  with frame_watchListedPackages [of w cfg e Built out] show ?thesis
    by (simp add: rebuild_boot_def frame_extends)
next
  case (Inr w1)
  with frame_watchListedPackages [of w cfg e Built out]
  have a: "extends (rebuild_event cfg e) w w1" by (simp add: frame_extends)
  have "extends (rebuild_event cfg e) w1 (world_of (rebuild_boot cfg e out w))"
    using Inr
    by (cases "startError e"; cases "boot e")
       (simp_all add: rebuild_boot_def Let_def waiter_Wait_def startService_def extends_def
          rebuild_event_def)
  with a show ?thesis by (rule extends_trans)
qed

lemma extends_rebuild_build:
  "extends (rebuild_event cfg e) w (world_of (rebuild_build cfg e w))"
proof -
  define w1 where "w1 = reap e (emit [CombinedOutput ''go'' (buildCommand cfg)] w)"
  have a: "extends (rebuild_event cfg e) w w1"
    by (simp add: w1_def extends_def rebuild_event_def)
  obtain out err where g: "goBuild e = (out, err)" by (cases "goBuild e")
  have "extends (rebuild_event cfg e) w1 (world_of (rebuild_build cfg e w))"
  proof (cases err)
    case None
    with g extends_rebuild_boot [of cfg e w1 out] show ?thesis
      by (simp add: rebuild_build_def w1_def)
  next
    case (Some x)
    with g show ?thesis
      by (cases x) (simp_all add: rebuild_build_def w1_def [symmetric] extends_def rebuild_event_def)
  qed
  with a show ?thesis by (rule extends_trans)
qed

lemma extends_rebuild:
  "extends (rebuild_event cfg e) w (world_of (rebuild cfg e w))"
proof (cases "rebuild_enter cfg e w")
  case (Inl x)
  with frame_rebuild_enter [of w cfg e] show ?thesis
    by (cases x) (simp add: rebuild_def frame_extends)
next
  case (Inr w1)
  with frame_rebuild_enter [of w cfg e]
  have a: "extends (rebuild_event cfg e) w w1" by (simp add: frame_extends)
  have b: "extends (rebuild_event cfg e) w1 (rebuild_reset w1)"
    by (simp add: extends_def rebuild_event_def split: option.splits)
  note c = extends_rebuild_build [of cfg e "rebuild_reset w1"]
  have d: "extends (rebuild_event cfg e) (world_of (rebuild_build cfg e (rebuild_reset w1)))
             (world_of (rebuild cfg e w))"
    using Inr
    by (cases "rebuild_build cfg e (rebuild_reset w1)")
       (auto simp: rebuild_def extends_def rebuild_event_def)
  from a b c d show ?thesis by (blast intro: extends_trans)
qed

text \<open>
  C5, as amended. No rebuild draws a port: whatever happens in a rebuild, it never asks
  the kernel for one, and every child it starts gets \<open>PORT\<close> set to the port of
  \<open>serviceURL\<close>, which is fixed before the first rebuild. When no service address is
  given, that URL is the one \<open>generateServiceURL\<close> draws, once, while the arguments are
  parsed.
\<close>

theorem service_port_drawn_once:
  "(\<exists>es. trace (world_of (rebuild cfg e w)) = trace w @ es
        \<and> (\<forall>a. ListenTCP a \<notin> set es)
        \<and> (\<forall>p a env. Start p a env \<in> set es \<longrightarrow> env = environ e @ [''PORT='' @ Port (serviceURL cfg)]))
   \<and> (mustParseArgs_urls n listenFlag [] w0 = Inr ((l, s), w') \<longrightarrow> (s, w') = generateServiceURL n l w0)"
proof
  from extends_rebuild [of cfg e w] obtain es where
    t: "trace (world_of (rebuild cfg e w)) = trace w @ es" and a: "list_all (rebuild_event cfg e) es"
    by (auto simp: extends_def)
  from a have "\<forall>a. ListenTCP a \<notin> set es"
    by (auto simp: list_all_iff rebuild_event_def)
  moreover from a have "\<forall>p a env. Start p a env \<in> set es \<longrightarrow> env = environ e @ [''PORT='' @ Port (serviceURL cfg)]"
    by (auto simp: list_all_iff rebuild_event_def)
  ultimately show "\<exists>es. trace (world_of (rebuild cfg e w)) = trace w @ es
        \<and> (\<forall>a. ListenTCP a \<notin> set es)
        \<and> (\<forall>p a env. Start p a env \<in> set es \<longrightarrow> env = environ e @ [''PORT='' @ Port (serviceURL cfg)])"
    using t by blast
  show "mustParseArgs_urls n listenFlag [] w0 = Inr ((l, s), w') \<longrightarrow> (s, w') = generateServiceURL n l w0"
    by (auto simp: mustParseArgs_urls_def split: sum.splits prod.splits)
qed

lemma example_urls:
  "Hostname \<lparr>Scheme = ''http'', Host = ''localhost:3000''\<rparr> = ''localhost''"
  "JoinHostPort ''localhost'' ''0'' = ''localhost:0''"
  "JoinHostPort ''localhost'' ''40001'' = ''localhost:40001''"
  by code_simp+

lemma example_port: "Itoa 40001 = ''40001''"
  by (simp add: Itoa_def digit_def)

lemma example_startup:
  "mustParseArgs_urls example_net ''localhost:3000'' [] initial =
     Inr ((listenURL example_config, serviceURL example_config), example_started)"
  by (simp add: mustParseArgs_urls_def argToURL_def generateServiceURL_def example_net_def
        example_port example_urls example_config_def example_started_def Let_def)

lemma example_enter_started:
  "rebuild_enter example_config example_env example_started =
     Inr \<lparr>errorResponse = None, builtOnce = False, service = None, waiter = 0,
          watchedDir = [''/src/app/lib'' \<mapsto> True],
          trace = [ListenTCP ''localhost:0'', Lock, CombinedOutput ''go'' (listCommand example_config),
                   WatcherAdd ''/src/app/lib'']\<rparr>"
  by (simp add: rebuild_enter_def rebuild_list_def Let_def example_watch_main example_watch_list
        addWatch_def watched_def initial_def example_started_def emit_def)

lemma example_rebuild_from_start:
  "rebuild example_config example_env example_started =
     Inr (example_served (ListenTCP ''localhost:0'' # example_first))"
  by (simp add: rebuild_def example_enter_started rebuild_build_def rebuild_boot_def Let_def
        example_watch_nothing example_startService waiter_Wait_def reap_def rebuild_reset_def
        stopRunningService_def example_served_def example_first_def emit_def)

lemma example_reenter_served:
  "rebuild_enter cfg e (example_served t) =
     Inr (example_served (t @ [Lock, Printf (''lrt: rebuilding...'' @ [NL]) []]))"
  by (simp add: rebuild_enter_def Let_def example_served_def emit_def)

lemma example_rebuild_again:
  "rebuild example_config example_env (example_served t) = Inr (example_served (t @ example_second))"
  by (simp add: rebuild_def example_reenter_served)
     (simp add: rebuild_build_def rebuild_boot_def Let_def
        example_watch_nothing example_startService waiter_Wait_def reap_def rebuild_reset_def
        stopRunningService_def example_served_def example_second_def emit_def)

text \<open>
  C5 as stated fails: one port is drawn at start (40001 here), and two successive
  rebuilds both start their child with that port; the second rebuild draws nothing.
\<close>

theorem port_not_redrawn_counterexample:
  "mustParseArgs_urls example_net ''localhost:3000'' [] initial =
     Inr ((listenURL example_config, serviceURL example_config), example_started)
   \<and> trace (world_of (rebuild example_config example_env
                (world_of (rebuild example_config example_env example_started)))) =
       [ListenTCP ''localhost:0'',
        Lock, CombinedOutput ''go'' (listCommand example_config), WatcherAdd ''/src/app/lib'',
        CombinedOutput ''go'' (buildCommand example_config), WaiterWait,
        Start ''/tmp/lrt-service1'' [] [''HOME=/root'', ''PORT=40001''], Unlock,
        Lock, Printf (''lrt: rebuilding...'' @ [NL]) [], SignalTERM,
        CombinedOutput ''go'' (buildCommand example_config), WaiterWait,
        Start ''/tmp/lrt-service1'' [] [''HOME=/root'', ''PORT=40001''], Unlock]"
  by (simp add: example_startup example_rebuild_from_start example_rebuild_again world_of_def)
     (simp add: example_served_def example_first_def example_second_def)

text \<open>
  C5 as amended on the sample.
\<close>

theorem service_port_drawn_once_witness:
  "mustParseArgs_urls example_net ''localhost:3000'' [] initial =
     Inr ((listenURL example_config, serviceURL example_config), example_started)
   \<and> generateServiceURL example_net (listenURL example_config) initial =
       (serviceURL example_config, example_started)
   \<and> ListenTCP ''localhost:0'' \<notin> set (drop (length (trace example_started))
         (trace (world_of (rebuild example_config example_env example_started))))
   \<and> Start ''/tmp/lrt-service1'' [] [''HOME=/root'', ''PORT=40001''] \<in> set (drop (length (trace example_started))
         (trace (world_of (rebuild example_config example_env example_started))))
   \<and> environ example_env @ [''PORT='' @ Port (serviceURL example_config)] = [''HOME=/root'', ''PORT=40001'']"
proof -
  note t = service_port_drawn_once [where cfg = example_config and e = example_env
      and w = example_started and n = example_net and listenFlag = "''localhost:3000''"
      and ?w0.0 = initial and l = "listenURL example_config" and s = "serviceURL example_config"
      and w' = example_started]
  from t example_startup have g: "generateServiceURL example_net (listenURL example_config) initial =
       (serviceURL example_config, example_started)" by simp
  from t obtain es where
    es: "trace (world_of (rebuild example_config example_env example_started)) = trace example_started @ es"
    and no: "\<forall>a. ListenTCP a \<notin> set es"
    and st: "\<forall>p a env. Start p a env \<in> set es \<longrightarrow>
               env = environ example_env @ [''PORT='' @ Port (serviceURL example_config)]"
    by blast
  have d: "drop (length (trace example_started))
         (trace (world_of (rebuild example_config example_env example_started))) = es"
    by (simp add: es)
  have tr: "trace (world_of (rebuild example_config example_env example_started)) =
              trace example_started @ example_first"
    unfolding example_rebuild_from_start
    by (simp add: world_of_def example_served_def example_started_def initial_def emit_def)
  with es have "es = example_first" by simp
  then have m: "Start ''/tmp/lrt-service1'' [] [''HOME=/root'', ''PORT=40001''] \<in> set es"
    by (simp add: example_first_def)
  with st have "[''HOME=/root'', ''PORT=40001''] =
      environ example_env @ [''PORT='' @ Port (serviceURL example_config)]" by blast
  with m no d g example_startup show ?thesis by simp
qed

section \<open>The watched directories\<close>

lemma adds_append [simp]: "adds (xs @ ys) = adds xs @ adds ys"
  by (induction xs) (simp_all split: event.splits)

lemma watched_cong: "watchedDir w' = watchedDir w \<Longrightarrow> watched w' d = watched w d"
  by (simp add: watched_def)

lemma watched_emit [simp]: "watched (emit es w) d = watched w d"
  by (simp add: watched_def)

lemma settled_grown: "settled w w' \<Longrightarrow> grown w w'"
  by (auto simp: settled_def grown_def)

lemma same_watch_settled: "same_watch w w' \<Longrightarrow> settled w w'"
  by (auto simp: same_watch_def settled_def watched_def)

lemma same_watch_refl [simp]: "same_watch w w"
  by (simp add: same_watch_def)

lemma same_watch_emit: "adds es = [] \<Longrightarrow> same_watch w (emit es w)"
  by (simp add: same_watch_def)

lemma same_watch_trans: "same_watch a b \<Longrightarrow> same_watch b c \<Longrightarrow> same_watch a c"
  by (auto simp: same_watch_def)

lemma settled_trans:
  assumes "settled a b" "settled b c"
  shows "settled a c"
proof -
  from assms(1) obtain es1 where 1: "trace b = trace a @ es1" "distinct (adds es1)"
    "\<forall>d\<in>set (adds es1). \<not> watched a d \<and> watched b d" and m1: "\<forall>d. watched a d \<longrightarrow> watched b d"
    by (auto simp: settled_def)
  from assms(2) obtain es2 where 2: "trace c = trace b @ es2" "distinct (adds es2)"
    "\<forall>d\<in>set (adds es2). \<not> watched b d \<and> watched c d" and m2: "\<forall>d. watched b d \<longrightarrow> watched c d"
    by (auto simp: settled_def)
  have "trace c = trace a @ (es1 @ es2)" using 1 2 by simp
  moreover have "distinct (adds (es1 @ es2))" using 1 2 by auto
  moreover have "\<forall>d\<in>set (adds (es1 @ es2)). \<not> watched a d \<and> watched c d"
    using 1 2 m1 m2 by auto
  moreover have "\<forall>d. watched a d \<longrightarrow> watched c d" using m1 m2 by blast
  ultimately show ?thesis unfolding settled_def by blast
qed

lemma settled_then_grown:
  assumes "settled a b" "grown b c"
  shows "grown a c"
proof -
  from assms(1) obtain es1 where 1: "trace b = trace a @ es1" "distinct (adds es1)"
    "\<forall>d\<in>set (adds es1). \<not> watched a d \<and> watched b d" and m1: "\<forall>d. watched a d \<longrightarrow> watched b d"
    by (auto simp: settled_def)
  from assms(2) obtain es2 where 2: "trace c = trace b @ es2" "distinct (adds es2)"
    "\<forall>d\<in>set (adds es2). \<not> watched b d" and m2: "\<forall>d. watched b d \<longrightarrow> watched c d"
    by (auto simp: grown_def)
  have "trace c = trace a @ (es1 @ es2)" using 1 2 by simp
  moreover have "distinct (adds (es1 @ es2))" using 1 2 by auto
  moreover have "\<forall>d\<in>set (adds (es1 @ es2)). \<not> watched a d"
    using 1 2 m1 by auto
  moreover have "\<forall>d. watched a d \<longrightarrow> watched c d" using m1 m2 by blast
  ultimately show ?thesis unfolding grown_def by blast
qed

lemma tracks_bind:
  assumes "tracks w r" and "\<And>w1. r = Inr w1 \<Longrightarrow> tracks w1 (f w1)"
  shows "tracks w (case r of Inl x \<Rightarrow> Inl x | Inr w1 \<Rightarrow> f w1)"
proof (cases r)
  case (Inl x)
  with assms(1) show ?thesis by simp
next
  case (Inr w1)
  with assms have s: "settled w w1" and t: "tracks w1 (f w1)" by (simp_all add: tracks_def)
  show ?thesis
  proof (cases "f w1")
    case (Inl x)
    obtain c w2 where x: "x = (c, w2)" by (cases x)
    with t Inl have "grown w1 w2" by (simp add: tracks_def)
    with s have "grown w w2" by (rule settled_then_grown)
    with Inl x \<open>r = Inr w1\<close> show ?thesis by (simp add: tracks_def)
  next
    case (Inr w2)
    with t have "settled w1 w2" by (simp add: tracks_def)
    with s have "settled w w2" by (rule settled_trans)
    with Inr \<open>r = Inr w1\<close> show ?thesis by (simp add: tracks_def)
  qed
qed

lemma tracks_same_Inr: "same_watch w w' \<Longrightarrow> tracks w (Inr w')"
  by (simp add: tracks_def same_watch_settled)

lemma tracks_same_exit: "same_watch w w' \<Longrightarrow> tracks w (os_Exit c w')"
proof -
  assume "same_watch w w'"
  then have "same_watch w (emit [OsExit c] w')"
    by (auto simp: same_watch_def)
  then show ?thesis
    by (simp add: tracks_def os_Exit_def same_watch_settled settled_grown)
qed

lemma tracks_pre: "same_watch w w1 \<Longrightarrow> tracks w1 r \<Longrightarrow> tracks w r"
  using tracks_bind [of w "Inr w1" "\<lambda>_. r"] by (simp add: tracks_same_Inr)

lemma tracks_addWatch: "tracks w (addWatch e dir w)"
proof (cases "dir \<noteq> [] \<and> \<not> watched w dir")
  case False
  then show ?thesis by (auto simp: addWatch_def tracks_same_Inr)
next
  case True
  show ?thesis
  proof (cases "Add e dir")
    case None
    with True show ?thesis
      by (simp add: addWatch_def tracks_def settled_def watched_def)
  next
    case (Some err)
    with True show ?thesis
      by (simp add: addWatch_def tracks_def os_Exit_def grown_def)
  qed
qed

lemma tracks_watchDependency: "tracks w (watchDependency cfg e k i p w)"
  by (cases "resolve cfg e k i p")
     (simp_all add: watchDependency_def tracks_addWatch tracks_same_exit same_watch_emit)

lemma tracks_watchPackage: "tracks w (watchPackage cfg e k i p w)"
  by (simp add: watchPackage_def tracks_watchDependency tracks_same_Inr same_watch_emit)

lemma tracks_watchPackages: "tracks w (watchPackages cfg e k i ps w)"
proof (induction ps arbitrary: w i)
  case Nil
  show ?case by (simp add: tracks_same_Inr)
next
  case (Cons p ps)
  show ?case
    using tracks_bind [OF tracks_watchPackage [of w cfg e k i p], of "watchPackages cfg e k (Suc i) ps"]
      Cons.IH
    by simp
qed

lemma tracks_watchListedPackages: "tracks w (watchListedPackages cfg e k out w)"
  by (simp add: watchListedPackages_def tracks_watchPackages)

lemma tracks_same_result: "same_watch w (world_of r) \<Longrightarrow> tracks w r"
  by (cases r) (auto simp: tracks_def world_of_def same_watch_settled settled_grown)

lemma tracks_rebuild_list: "tracks w (rebuild_list cfg e w)"
proof -
  define w1 where "w1 = emit [CombinedOutput ''go'' (listCommand cfg)] w"
  have a: "same_watch w w1" by (simp add: w1_def same_watch_emit)
  obtain out err where g: "goList e = (out, err)" by (cases "goList e")
  have "tracks w1 (rebuild_list cfg e w)"
  proof (cases err)
    case None
    with g have "rebuild_list cfg e w =
        (case watchListedPackages cfg e MainPackage (Some (packageName cfg)) w1 of
           Inl x \<Rightarrow> Inl x | Inr w2 \<Rightarrow> watchListedPackages cfg e Listed out w2)"
      by (simp add: rebuild_list_def w1_def)
    then show ?thesis
      using tracks_bind [OF tracks_watchListedPackages, where f = "watchListedPackages cfg e Listed out"]
      by (simp add: tracks_watchListedPackages)
  next
    case (Some x)
    with g show ?thesis
      by (cases x)
         (simp_all add: rebuild_list_def w1_def [symmetric] tracks_same_exit same_watch_emit)
  qed
  with a show ?thesis by (rule tracks_pre)
qed

lemma tracks_rebuild_enter: "tracks w (rebuild_enter cfg e w)"
proof -
  have a: "same_watch w (emit [Lock] w)"
    and b: "same_watch w (emit [Lock, Printf (''lrt: rebuilding...'' @ [NL]) []] w)"
    by (simp_all add: same_watch_emit)
  show ?thesis
  proof (cases "builtOnce w")
    case True
    with b tracks_pre [OF b tracks_rebuild_list] show ?thesis
      by (simp add: rebuild_enter_def Let_def tracks_same_Inr)
  next
    case False
    with tracks_pre [OF a tracks_rebuild_list] show ?thesis
      by (simp add: rebuild_enter_def Let_def)
  qed
qed

lemma same_watch_after_watch:
  "same_watch w1
     (world_of
       (let w2 = waiter_Wait w1;
            c = startService cfg e;
            w3 = (emit [Start (Path c) (Args c) (Env c)] w2)\<lparr>service := Some c\<rparr>
        in case startError e of
             Some err \<Rightarrow> os_Exit 1 (emit [Fprintln_stderr err] w3)
           | None \<Rightarrow>
               (let w4 = w3\<lparr>waiter := waiter w3 + 1\<rparr> in
                Inr (case boot e of
                       ChildExited \<Rightarrow>
                         (emit [Fprintf_stderr (exitedMessage cfg) []] w4)
                           \<lparr>errorResponse := Some (exitedMessage cfg), waiter := waiter w4 - 1\<rparr>
                     | TimedOut \<Rightarrow>
                         (emit [Fprintf_stderr (timeoutMessage cfg) []] w4)
                           \<lparr>errorResponse := Some (timeoutMessage cfg)\<rparr>
                     | Listening \<Rightarrow> w4))))"
  by (cases "startError e"; cases "boot e")
     (simp_all add: Let_def waiter_Wait_def same_watch_def)

lemma tracks_rebuild_boot: "tracks w (rebuild_boot cfg e out w)"
  unfolding rebuild_boot_def
  by (rule tracks_bind [OF tracks_watchListedPackages])
     (rule tracks_same_result, rule same_watch_after_watch)

lemma tracks_rebuild_build: "tracks w (rebuild_build cfg e w)"
proof -
  define w1 where "w1 = reap e (emit [CombinedOutput ''go'' (buildCommand cfg)] w)"
  have a: "same_watch w w1" by (simp add: w1_def same_watch_def reap_def)
  obtain out err where g: "goBuild e = (out, err)" by (cases "goBuild e")
  have "tracks w1 (rebuild_build cfg e w)"
  proof (cases err)
    case None
    with g show ?thesis by (simp add: rebuild_build_def w1_def tracks_rebuild_boot)
  next
    case (Some x)
    with g show ?thesis
      by (cases x)
         (simp_all add: rebuild_build_def w1_def [symmetric] tracks_same_exit same_watch_emit
            tracks_same_Inr same_watch_def)
  qed
  with a show ?thesis by (rule tracks_pre)
qed

lemma tracks_rebuild: "tracks w (rebuild cfg e w)"
  unfolding rebuild_def
proof (rule tracks_bind [OF tracks_rebuild_enter])
  fix w1
  have a: "same_watch w1 (rebuild_reset w1)"
    by (simp add: same_watch_def rebuild_reset_def stopRunningService_def split: option.splits)
  have "tracks (rebuild_reset w1)
          (case rebuild_build cfg e (rebuild_reset w1) of
             Inl x \<Rightarrow> Inl x | Inr w2 \<Rightarrow> Inr (emit [Unlock] w2))"
    by (rule tracks_bind [OF tracks_rebuild_build]) (simp add: tracks_same_Inr same_watch_emit)
  with a show "tracks w1
          (case rebuild_build cfg e (rebuild_reset w1) of
             Inl x \<Rightarrow> Inl x | Inr w2 \<Rightarrow> Inr (emit [Unlock] w2))"
    by (rule tracks_pre)
qed

lemma tracks_rebuilds: "tracks w (rebuilds cfg es w)"
proof (induction es arbitrary: w)
  case Nil
  show ?case by (simp add: tracks_same_Inr)
next
  case (Cons e es)
  show ?case
    using tracks_bind [OF tracks_rebuild [of w cfg e], of "rebuilds cfg es"] Cons.IH
    by simp
qed

lemma tracks_grown: "tracks w r \<Longrightarrow> grown w (world_of r)"
  by (cases r) (auto simp: tracks_def world_of_def settled_grown)

lemma inv_grown:
  assumes "watch_inv w" "grown w w'"
  shows "distinct (adds (trace w'))"
proof -
  from assms(2) obtain es where es: "trace w' = trace w @ es" "distinct (adds es)"
    "\<forall>d\<in>set (adds es). \<not> watched w d"
    by (auto simp: grown_def)
  from assms(1) have i: "distinct (adds (trace w))" "\<forall>d\<in>set (adds (trace w)). watched w d"
    by (simp_all add: watch_inv_def list_all_iff)
  from es(3) i(2) have "set (adds (trace w)) \<inter> set (adds es) = {}" by blast
  with es i show ?thesis by simp
qed

lemma inv_settled:
  assumes "watch_inv w" "settled w w'"
  shows "watch_inv w'"
proof -
  from assms(2) obtain es where es: "trace w' = trace w @ es" "distinct (adds es)"
    "\<forall>d\<in>set (adds es). \<not> watched w d \<and> watched w' d" and m: "\<forall>d. watched w d \<longrightarrow> watched w' d"
    by (auto simp: settled_def)
  from assms(1) have i: "distinct (adds (trace w))" "\<forall>d\<in>set (adds (trace w)). watched w d"
    by (simp_all add: watch_inv_def list_all_iff)
  from es(3) i(2) have "set (adds (trace w)) \<inter> set (adds es) = {}" by blast
  with es i have "distinct (adds (trace w'))" by simp
  moreover from es i m have "\<forall>d\<in>set (adds (trace w')). watched w' d" by auto
  ultimately show ?thesis by (simp add: watch_inv_def list_all_iff)
qed

lemma grown_watched: "grown w w' \<Longrightarrow> watched w d \<Longrightarrow> watched w' d"
  by (simp add: grown_def)

lemma emit_nil [simp]: "emit [] w = w"
  by (simp add: emit_def)

lemma resolved_emit [simp]: "resolved cfg e k i (emit es w) p = resolved cfg e k i w p"
  by (simp add: resolved_def split: sum.splits)

lemma resolved_mono:
  "resolved cfg e k i w p \<Longrightarrow> \<forall>d. watched w d \<longrightarrow> watched w' d \<Longrightarrow> resolved cfg e k i w' p"
  by (auto simp: resolved_def split: sum.splits)

lemma addWatch_Inr_watched:
  "addWatch e dir w = Inr w' \<Longrightarrow> dir = [] \<or> watched w' dir"
  by (auto simp: addWatch_def os_Exit_def watched_def split: if_splits option.splits)

lemma watchPackage_Inr_resolved:
  assumes "watchPackage cfg e k i p w = Inr w'" "p \<noteq> []" "\<not> noise p"
  shows "resolved cfg e k i w' p"
proof -
  from assms obtain dir where "resolve cfg e k i p = Inr dir" "addWatch e dir w = Inr w'"
    by (auto simp: watchPackage_def watchDependency_def os_Exit_def split: sum.splits)
  with addWatch_Inr_watched show ?thesis by (auto simp: resolved_def)
qed

lemma settled_watched: "settled w w' \<Longrightarrow> \<forall>d. watched w d \<longrightarrow> watched w' d"
  by (simp add: settled_def)

lemma watchPackages_Inr_resolved:
  "watchPackages cfg e k i ps w = Inr w1 \<Longrightarrow> j < length ps \<Longrightarrow> ps ! j \<noteq> [] \<Longrightarrow> \<not> noise (ps ! j) \<Longrightarrow>
   resolved cfg e k (i + j) w1 (ps ! j)"
proof (induction ps arbitrary: w i j)
  case Nil
  then show ?case by simp
next
  case (Cons p ps)
  from Cons.prems(1) obtain w' where a: "watchPackage cfg e k i p w = Inr w'"
    and b: "watchPackages cfg e k (Suc i) ps w' = Inr w1"
    by (auto split: sum.splits)
  show ?case
  proof (cases j)
    case 0
    with Cons.prems have "p \<noteq> []" "\<not> noise p" by simp_all
    with a have "resolved cfg e k i w' p" by (rule watchPackage_Inr_resolved)
    moreover from tracks_watchPackages [of w' cfg e k "Suc i" ps] b
    have "\<forall>d. watched w' d \<longrightarrow> watched w1 d"
      by (simp add: tracks_def settled_watched)
    ultimately have "resolved cfg e k i w1 p" by (rule resolved_mono)
    with 0 show ?thesis by simp
  next
    case (Suc j')
    with Cons.prems have "j' < length ps" "ps ! j' \<noteq> []" "\<not> noise (ps ! j')" by simp_all
    with b have "resolved cfg e k (Suc i + j') w1 (ps ! j')" by (rule Cons.IH)
    with Suc show ?thesis by simp
  qed
qed

lemma echoes_Cons: "echoes (p # ps) = echoes [p] @ echoes ps"
  by (simp add: echoes_def)

lemma echoes_Nil [simp]: "echoes [] = []"
  by (simp add: echoes_def)

lemma echoes_dependency: "p \<noteq> [] \<Longrightarrow> \<not> noise p \<Longrightarrow> echoes [p] = []"
  by (simp add: echoes_def)

lemma watchPackage_again:
  assumes "p \<noteq> [] \<and> \<not> noise p \<longrightarrow> resolved cfg e k i w p"
  shows "watchPackage cfg e k i p w = Inr (emit (echoes [p]) w)"
proof (cases "p \<noteq> [] \<and> \<not> noise p")
  case False
  then show ?thesis by (auto simp: watchPackage_def echoes_def)
next
  case True
  with assms have "resolved cfg e k i w p" by simp
  then obtain dir where r: "resolve cfg e k i p = Inr dir" and d: "dir = [] \<or> watched w dir"
    by (auto simp: resolved_def split: sum.splits)
  from d have "addWatch e dir w = Inr w" by (auto simp: addWatch_def)
  with True r show ?thesis
    by (simp add: watchPackage_def watchDependency_def echoes_dependency)
qed

lemma watchPackages_again:
  "\<forall>j<length ps. ps ! j \<noteq> [] \<and> \<not> noise (ps ! j) \<longrightarrow> resolved cfg e k (i + j) w (ps ! j) \<Longrightarrow>
   watchPackages cfg e k i ps w = Inr (emit (echoes ps) w)"
proof (induction ps arbitrary: w i)
  case Nil
  show ?case by simp
next
  case (Cons p ps)
  from Cons.prems [rule_format, of 0] have "p \<noteq> [] \<and> \<not> noise p \<longrightarrow> resolved cfg e k i w p"
    by simp
  then have a: "watchPackage cfg e k i p w = Inr (emit (echoes [p]) w)"
    by (rule watchPackage_again)
  have "\<forall>j<length ps. ps ! j \<noteq> [] \<and> \<not> noise (ps ! j) \<longrightarrow>
          resolved cfg e k (Suc i + j) (emit (echoes [p]) w) (ps ! j)"
  proof (intro allI impI)
    fix j assume "j < length ps" "ps ! j \<noteq> [] \<and> \<not> noise (ps ! j)"
    with Cons.prems [rule_format, of "Suc j"]
    show "resolved cfg e k (Suc i + j) (emit (echoes [p]) w) (ps ! j)" by simp
  qed
  from Cons.IH [OF this] have "watchPackages cfg e k (Suc i) ps (emit (echoes [p]) w) =
      Inr (emit (echoes [p] @ echoes ps) w)"
    by simp
  with a show ?case by (simp add: echoes_Cons [of p ps])
qed

lemma adds_echoes [simp]: "adds (echoes ps) = []"
  unfolding echoes_def by (induction ps) simp_all

lemma watchListedPackages_again:
  assumes "watchListedPackages cfg e k out w = Inr w1"
    and "same_resolution cfg e k e' k' (SplitNL (TrimSpace (string_of out)))"
  shows "watchListedPackages cfg e' k' out w1 =
           Inr (emit (echoes (SplitNL (TrimSpace (string_of out)))) w1)"
proof -
  define ps where "ps = SplitNL (TrimSpace (string_of out))"
  from assms(1) have p: "watchPackages cfg e k 0 ps w = Inr w1"
    by (simp add: watchListedPackages_def ps_def)
  have "\<forall>j<length ps. ps ! j \<noteq> [] \<and> \<not> noise (ps ! j) \<longrightarrow> resolved cfg e' k' (0 + j) w1 (ps ! j)"
  proof (intro allI impI)
    fix j assume j: "j < length ps" and d: "ps ! j \<noteq> [] \<and> \<not> noise (ps ! j)"
    from watchPackages_Inr_resolved [OF p j] d have "resolved cfg e k (0 + j) w1 (ps ! j)"
      by simp
    moreover from assms(2) j d have "resolve cfg e' k' j (ps ! j) = resolve cfg e k j (ps ! j)"
      by (simp add: same_resolution_def list_all_iff ps_def)
    ultimately show "resolved cfg e' k' (0 + j) w1 (ps ! j)"
      by (simp add: resolved_def)
  qed
  then have "watchPackages cfg e' k' 0 ps w1 = Inr (emit (echoes ps) w1)"
    by (rule watchPackages_again)
  then show ?thesis by (simp add: watchListedPackages_def ps_def)
qed

text \<open>
  C10, as amended. Over any sequence of rebuilds from the initial state \<open>watcher.Add\<close> is
  called at most once for each directory. No operation removes a directory from the
  watched set: what is watched before a sequence of rebuilds, a pass over a package list
  or the shutdown is watched after it. A second pass over the same package list adds
  nothing when every dependency identifier in it is resolved to the same directory as in
  the first pass: it leaves the watched set as the first pass left it and calls
  \<open>watcher.Add\<close> for no directory.
\<close>

theorem watch_registration_idempotent:
  "distinct (adds (trace (world_of (rebuilds cfg es initial))))
   \<and> (\<forall>d. watched w d \<longrightarrow> watched (world_of (rebuilds cfg es w)) d)
   \<and> (\<forall>d. watched w d \<longrightarrow> watched (world_of (watchListedPackages cfg e k out w)) d)
   \<and> (\<forall>d. watched w d \<longrightarrow> watched (snd (shutdown cfg w)) d)
   \<and> (\<forall>w1. watchListedPackages cfg e k out w = Inr w1
             \<and> same_resolution cfg e k e' k' (SplitNL (TrimSpace (string_of out))) \<longrightarrow>
        (\<exists>w2. watchListedPackages cfg e' k' out w1 = Inr w2 \<and> watchedDir w2 = watchedDir w1
              \<and> adds (trace w2) = adds (trace w1)))"
proof (intro conjI allI impI)
  have "watch_inv initial" by (simp add: watch_inv_def initial_def)
  then show "distinct (adds (trace (world_of (rebuilds cfg es initial))))"
    using tracks_grown [OF tracks_rebuilds] by (rule inv_grown)
next
  fix d assume "watched w d"
  then show "watched (world_of (rebuilds cfg es w)) d"
    using tracks_grown [OF tracks_rebuilds, of w cfg es] by (simp add: grown_def)
next
  fix d assume "watched w d"
  then show "watched (world_of (watchListedPackages cfg e k out w)) d"
    using tracks_grown [OF tracks_watchListedPackages, of w cfg e k out] by (simp add: grown_def)
next
  fix d assume "watched w d"
  moreover have "watchedDir (snd (shutdown cfg w)) = watchedDir w"
    by (simp add: shutdown_def main_ends_def waiter_Wait_def stopRunningService_def
          split: option.splits)
  ultimately show "watched (snd (shutdown cfg w)) d"
    by (simp add: watched_def)
next
  fix w1 assume "watchListedPackages cfg e k out w = Inr w1
             \<and> same_resolution cfg e k e' k' (SplitNL (TrimSpace (string_of out)))"
  then have "watchListedPackages cfg e' k' out w1 =
           Inr (emit (echoes (SplitNL (TrimSpace (string_of out)))) w1)"
    using watchListedPackages_again [of cfg e k out w w1 e' k'] by blast
  then show "\<exists>w2. watchListedPackages cfg e' k' out w1 = Inr w2 \<and> watchedDir w2 = watchedDir w1
              \<and> adds (trace w2) = adds (trace w1)"
    by simp
qed

lemma example_overlap_line:
  "SplitNL (TrimSpace (string_of (Some ''example.com/a/b/c''))) = [''example.com/a/b/c'']"
  "noise ''example.com/a/b/c'' = False"
  by (simp_all add: string_of_def noise_def TrimSpace_def TrimLeftSpace_def TrimRightSpace_def
        whiteSpace_def NL_def)

lemma example_overlap_resolve:
  "resolve example_overlap example_visit_ab k i ''example.com/a/b/c'' = Inr ''../vendored/b/c''"
  "resolve example_overlap example_visit_ba k i ''example.com/a/b/c'' = Inr ''../a/b/c''"
  by (simp_all add: resolve_def example_overlap_def example_config_def example_visit_ab_def
        example_visit_ba_def example_env_def moduleDir_def TrimPrefix_def)

lemma example_overlap_visits:
  "visits [''example.com/a'' \<mapsto> RelativePath ''../a'', ''example.com/a/b'' \<mapsto> RelativePath ''../vendored/b'']
     [''example.com/a'', ''example.com/a/b'']"
  "visits [''example.com/a'' \<mapsto> RelativePath ''../a'', ''example.com/a/b'' \<mapsto> RelativePath ''../vendored/b'']
     [''example.com/a/b'', ''example.com/a'']"
  by (auto simp: visits_def)

lemma example_visit_fields [simp]:
  "Add example_visit_ab d = None" "Add example_visit_ba d = None"
  by (simp_all add: example_visit_ab_def example_visit_ba_def example_env_def)

lemma example_overlap_first:
  "watchListedPackages example_overlap example_visit_ab k (Some ''example.com/a/b/c'') initial =
     Inr example_vendored"
  by (simp add: watchListedPackages_def example_overlap_line watchPackage_def watchDependency_def
        example_overlap_resolve addWatch_def watched_def initial_def example_vendored_def emit_def)

lemma example_overlap_same:
  "watchListedPackages example_overlap example_visit_ab k (Some ''example.com/a/b/c'') example_vendored =
     Inr example_vendored"
  by (simp add: watchListedPackages_def example_overlap_line watchPackage_def watchDependency_def
        example_overlap_resolve addWatch_def watched_def example_vendored_def)

lemma example_overlap_other:
  "watchListedPackages example_overlap example_visit_ba k (Some ''example.com/a/b/c'') example_vendored =
     Inr example_both"
  by (simp add: watchListedPackages_def example_overlap_line watchPackage_def watchDependency_def
        example_overlap_resolve addWatch_def watched_def initial_def example_vendored_def
        example_both_def emit_def)

text \<open>
  C10 as stated fails when two local replacements of the module match one identifier.
  The \<open>range\<close> statement can visit them in either order, and the one visited last gives
  the directory. The first pass over the one-line list visits \<open>example.com/a\<close> first and
  watches \<open>../vendored/b/c\<close>; the second pass over the same list visits it last, resolves
  the same identifier to \<open>../a/b/c\<close> and calls \<open>watcher.Add\<close> for it: the watched set is
  not what the first pass left.
\<close>

theorem second_pass_adds_counterexample:
  "goModule example_overlap =
     Some \<lparr>Name = ''example.com/app'',
           Replace = [''example.com/a'' \<mapsto> RelativePath ''../a'',
                      ''example.com/a/b'' \<mapsto> RelativePath ''../vendored/b'']\<rparr>
   \<and> visits [''example.com/a'' \<mapsto> RelativePath ''../a'', ''example.com/a/b'' \<mapsto> RelativePath ''../vendored/b'']
        (rangeOrder example_visit_ab Listed 0)
   \<and> visits [''example.com/a'' \<mapsto> RelativePath ''../a'', ''example.com/a/b'' \<mapsto> RelativePath ''../vendored/b'']
        (rangeOrder example_visit_ba Listed 0)
   \<and> watchListedPackages example_overlap example_visit_ab Listed (Some ''example.com/a/b/c'') initial =
        Inr example_vendored
   \<and> watchListedPackages example_overlap example_visit_ba Listed (Some ''example.com/a/b/c'') example_vendored =
        Inr example_both
   \<and> adds (trace example_vendored) = [''../vendored/b/c'']
   \<and> adds (trace example_both) = [''../vendored/b/c'', ''../a/b/c'']
   \<and> \<not> watched example_vendored ''../a/b/c''
   \<and> watched example_both ''../a/b/c''"
  by (simp add: example_overlap_first example_overlap_other)
     (simp add: example_overlap_visits example_overlap_def example_config_def example_visit_ab_def
        example_visit_ba_def example_env_def example_vendored_def example_both_def initial_def
        emit_def watched_def)

text \<open>
  C10 as amended on the sample: two rebuilds add the one directory once; a second pass
  that visits the replacements in the order of the first resolves the identifier to the
  same directory and changes nothing.
\<close>

theorem watch_registration_idempotent_witness:
  "distinct (adds (trace (world_of (rebuilds example_config [example_env, example_env_broken] initial))))
   \<and> adds (trace (world_of (rebuilds example_config [example_env, example_env_broken] initial))) =
       [''/src/app/lib'']
   \<and> watchListedPackages example_overlap example_visit_ab Listed (Some ''example.com/a/b/c'') initial =
       Inr example_vendored
   \<and> same_resolution example_overlap example_visit_ab Listed example_visit_ab Built
        (SplitNL (TrimSpace (string_of (Some ''example.com/a/b/c''))))
   \<and> watchListedPackages example_overlap example_visit_ab Built (Some ''example.com/a/b/c'') example_vendored =
       Inr example_vendored
   \<and> watched example_vendored ''../vendored/b/c''
   \<and> watched (snd (shutdown example_overlap example_vendored)) ''../vendored/b/c''
   \<and> watched (world_of (watchListedPackages example_overlap example_visit_ba Listed
                  (Some ''example.com/a/b/c'') example_vendored)) ''../vendored/b/c''"
proof -
  note t = watch_registration_idempotent [of example_config "[example_env, example_env_broken]"]
  note u = watch_registration_idempotent [of example_overlap "[]" example_vendored example_visit_ba
      Listed "Some ''example.com/a/b/c''"]
  note v = watch_registration_idempotent [of example_overlap "[]" initial example_visit_ab
      Listed "Some ''example.com/a/b/c''" example_visit_ab Built]
  from t have d: "distinct (adds (trace (world_of
      (rebuilds example_config [example_env, example_env_broken] initial))))"
    by blast
  have a: "adds (trace (world_of (rebuilds example_config [example_env, example_env_broken] initial))) =
       [''/src/app/lib'']"
    by (simp add: example_first_rebuild example_second_rebuild world_of_def)
       (simp add: example_running_def)
  have w: "watched example_vendored ''../vendored/b/c''"
    by (simp add: example_vendored_def watched_def)
  with u have s: "watched (snd (shutdown example_overlap example_vendored)) ''../vendored/b/c''"
    and o: "watched (world_of (watchListedPackages example_overlap example_visit_ba Listed
                  (Some ''example.com/a/b/c'') example_vendored)) ''../vendored/b/c''"
    by blast+
  have r: "same_resolution example_overlap example_visit_ab Listed example_visit_ab Built
        (SplitNL (TrimSpace (string_of (Some ''example.com/a/b/c''))))"
    by (simp add: same_resolution_def example_overlap_line example_overlap_resolve)
  from v example_overlap_first [of Listed] r obtain w2 where
    "watchListedPackages example_overlap example_visit_ab Built (Some ''example.com/a/b/c'') example_vendored =
       Inr w2"
    by blast
  then have l2: "watchListedPackages example_overlap example_visit_ab Built (Some ''example.com/a/b/c'') example_vendored =
       Inr example_vendored"
    by (simp add: example_overlap_same)
  from d a example_overlap_first [of Listed] r l2 w s o show ?thesis by simp
qed

section \<open>A build that fails without output\<close>

lemma example_silent_rebuild:
  "rebuild example_config example_env_silent initial =
     Inr ((emit [CombinedOutput ''go'' (buildCommand example_config), Print [], Unlock] example_entered)
            \<lparr>builtOnce := True, errorResponse := Some []\<rparr>)"
proof -
  have g: "goBuild example_env_silent = (Some [], Some (ExitError ''exit status 1''))"
    "oldChildReaped example_env_silent = False"
    by (simp_all add: example_env_silent_def example_env_def)
  have e: "rebuild_enter example_config example_env_silent initial = Inr example_entered"
    by (rule example_enter_first) (simp_all add: example_env_silent_def example_env_def)
  have s: "service example_entered = None" by (simp add: example_entered_def)
  show ?thesis
    by (simp add: rebuild_def e rebuild_build_ExitError [OF g(1)] rebuild_reset_def
          stopRunningService_def s reap_def g(2) string_of_def emit_def)
qed

text \<open>
  C2 as stated fails for an empty buffer that is not nil. A build command that exits
  non-zero without printing anything leaves \<open>errorResponse\<close> empty but not nil; the
  answer is then a 502 with an empty body, and the request is not forwarded.
\<close>

theorem ServeHTTP_empty_buffer_counterexample:
  "goBuild example_env_silent = (Some [], Some (ExitError ''exit status 1''))
   \<and> builtOnce (world_of (rebuild example_config example_env_silent initial))
   \<and> errorResponse (world_of (rebuild example_config example_env_silent initial)) = Some []
   \<and> string_of (errorResponse (world_of (rebuild example_config example_env_silent initial))) = []
   \<and> ServeHTTP [world_of (rebuild example_config example_env_silent initial)] =
       ([RLock, WriteHeader 502, Write [], RUnlock], True)
   \<and> Proxy \<notin> set (fst (ServeHTTP [world_of (rebuild example_config example_env_silent initial)]))"
  unfolding example_silent_rebuild
  by (simp add: ServeHTTP_built respond_def string_of_def example_env_silent_def example_env_def)

end
